theory Spec2Isabelle
  imports Main "HOL-Library.Sublist"
begin

section \<open>Text and the character database\<close>

text \<open>
  A Python \<open>str\<close> is a sequence of Unicode code points; message texts are modelled as
  lists of code points. Identifiers and callback tokens, which the bot builds itself from
  hexadecimal digits and ASCII words, are modelled as \<open>string\<close>.

  The regular expressions of \<open>bot.py\<close> consult Python's Unicode tables (\<open>\s\<close>,
  \<open>\d\<close>, \<open>\w\<close>, case-insensitive comparison) and \<open>str.lower\<close>. These tables are not
  part of the repository, so they are a parameter of the model. \<open>basic_ucd\<close> below is one
  instance, covering ASCII and the basic Cyrillic block, on which examples are evaluated.
\<close>

type_synonym ustr = "nat list"

record ucd =
  u_space :: "nat \<Rightarrow> bool"
  u_digit :: "nat \<Rightarrow> bool"
  u_word :: "nat \<Rightarrow> bool"
  u_lower :: "ustr \<Rightarrow> ustr"
  u_caseless :: "nat \<Rightarrow> nat \<Rightarrow> bool"

definition asc :: "string \<Rightarrow> ustr" where
  "asc s = map of_char s"

definition lower_cp :: "nat \<Rightarrow> nat" where
  "lower_cp c =
     (if 65 \<le> c \<and> c \<le> 90 then c + 32
      else if 1040 \<le> c \<and> c \<le> 1071 then c + 32
      else if 1024 \<le> c \<and> c \<le> 1039 then c + 80
      else c)"

definition basic_space :: "nat \<Rightarrow> bool" where
  "basic_space c = (c = 32 \<or> (9 \<le> c \<and> c \<le> 13) \<or> (28 \<le> c \<and> c \<le> 31))"

definition basic_digit :: "nat \<Rightarrow> bool" where
  "basic_digit c = (48 \<le> c \<and> c \<le> 57)"

definition basic_word :: "nat \<Rightarrow> bool" where
  "basic_word c =
     (basic_digit c \<or> c = 95 \<or> (65 \<le> c \<and> c \<le> 90) \<or> (97 \<le> c \<and> c \<le> 122)
      \<or> (1024 \<le> c \<and> c \<le> 1119))"

definition basic_ucd :: ucd where
  "basic_ucd =
     \<lparr> u_space = basic_space, u_digit = basic_digit, u_word = basic_word,
       u_lower = map lower_cp, u_caseless = (\<lambda>p c. lower_cp p = lower_cp c) \<rparr>"

section \<open>The fragment of Python's \<open>re\<close> used by the bot\<close>

text \<open>
  Character classes: a literal, \<open>\s\<close>, \<open>\d\<close>, \<open>\w\<close>, a set \<open>[...]\<close> and a negated
  set \<open>[^...]\<close>. The flag \<open>ic\<close> is \<open>re.IGNORECASE\<close>.
\<close>

datatype cls = Ch nat | Space | Digit | Word | OneOf "cls list" | NoneOf "cls list"

fun cls_match :: "ucd \<Rightarrow> bool \<Rightarrow> cls \<Rightarrow> nat \<Rightarrow> bool" where
  "cls_match U ic (Ch l) c = (if ic then u_caseless U l c else c = l)"
| "cls_match U ic Space c = u_space U c"
| "cls_match U ic Digit c = u_digit U c"
| "cls_match U ic Word c = u_word U c"
| "cls_match U ic (OneOf ks) c = list_ex (\<lambda>k. cls_match U ic k c) ks"
| "cls_match U ic (NoneOf ks) c = (\<not> list_ex (\<lambda>k. cls_match U ic k c) ks)"

text \<open>
  Patterns. Every repetition in \<open>bot.py\<close> is over a single character class:
  \<open>Plus\<close> is the greedy \<open>k+\<close>, \<open>StarLazy\<close> the lazy \<open>k*?\<close>, \<open>Rep k m n\<close> the greedy
  \<open>k{m,n}\<close>. \<open>Opt\<close> is the greedy \<open>r?\<close>, \<open>Grp n\<close> the capturing group number \<open>n\<close>,
  \<open>WordB\<close> the assertion \<open>\b\<close>.
\<close>

datatype regex =
    Eps
  | Atom cls
  | Cat regex regex
  | Alt regex regex
  | Opt regex
  | Rep cls nat nat
  | Plus cls
  | StarLazy cls
  | Grp nat regex
  | WordB

fun lits :: "ustr \<Rightarrow> regex" where
  "lits [] = Eps"
| "lits (c # cs) = Cat (Atom (Ch c)) (lits cs)"

fun seq :: "regex list \<Rightarrow> regex" where
  "seq [] = Eps"
| "seq (r # rs) = Cat r (seq rs)"

text \<open>
  A matcher state is the text already passed (reversed, so that its head is the character
  before the cursor), the text still ahead, and the captures made so far (latest first).
  \<open>rmatch\<close> returns every state in which a match of the pattern can end, in the order in
  which the backtracking matcher of \<open>re\<close> tries them; the head of the list is the match
  that \<open>re\<close> reports.
\<close>

type_synonym mstate = "ustr \<times> ustr \<times> (nat \<times> ustr) list"

fun greedy_all :: "ucd \<Rightarrow> bool \<Rightarrow> cls \<Rightarrow> mstate \<Rightarrow> mstate list" where
  "greedy_all U ic k (b, [], g) = [(b, [], g)]"
| "greedy_all U ic k (b, c # cs, g) =
     (if cls_match U ic k c then greedy_all U ic k (c # b, cs, g) @ [(b, c # cs, g)]
      else [(b, c # cs, g)])"

fun greedy_upto :: "ucd \<Rightarrow> bool \<Rightarrow> cls \<Rightarrow> nat \<Rightarrow> mstate \<Rightarrow> mstate list" where
  "greedy_upto U ic k 0 s = [s]"
| "greedy_upto U ic k (Suc n) (b, [], g) = [(b, [], g)]"
| "greedy_upto U ic k (Suc n) (b, c # cs, g) =
     (if cls_match U ic k c then greedy_upto U ic k n (c # b, cs, g) @ [(b, c # cs, g)]
      else [(b, c # cs, g)])"

definition at_least :: "nat \<Rightarrow> mstate \<Rightarrow> mstate list \<Rightarrow> mstate list" where
  "at_least m s rs = filter (\<lambda>s'. length (fst s) + m \<le> length (fst s')) rs"

definition word_boundary :: "ucd \<Rightarrow> ustr \<Rightarrow> ustr \<Rightarrow> bool" where
  "word_boundary U b a =
     ((case b of [] \<Rightarrow> False | p # _ \<Rightarrow> u_word U p)
        \<noteq> (case a of [] \<Rightarrow> False | c # _ \<Rightarrow> u_word U c))"

fun capture :: "nat \<Rightarrow> ustr \<Rightarrow> mstate \<Rightarrow> mstate" where
  "capture n b (b', a', g') = (b', a', (n, rev (take (length b' - length b) b')) # g')"

fun rmatch :: "ucd \<Rightarrow> bool \<Rightarrow> regex \<Rightarrow> mstate \<Rightarrow> mstate list" where
  "rmatch U ic Eps s = [s]"
| "rmatch U ic (Atom k) (b, a, g) =
     (case a of [] \<Rightarrow> []
      | c # cs \<Rightarrow> if cls_match U ic k c then [(c # b, cs, g)] else [])"
| "rmatch U ic (Cat r1 r2) s = concat (map (rmatch U ic r2) (rmatch U ic r1 s))"
| "rmatch U ic (Alt r1 r2) s = rmatch U ic r1 s @ rmatch U ic r2 s"
| "rmatch U ic (Opt r) s = rmatch U ic r s @ [s]"
| "rmatch U ic (Rep k m n) s = at_least m s (greedy_upto U ic k n s)"
| "rmatch U ic (Plus k) s = at_least 1 s (greedy_all U ic k s)"
| "rmatch U ic (StarLazy k) s = rev (greedy_all U ic k s)"
| "rmatch U ic (Grp n r) (b, a, g) = map (capture n b) (rmatch U ic r (b, a, g))"
| "rmatch U ic WordB (b, a, g) = (if word_boundary U b a then [(b, a, g)] else [])"

text \<open>
  \<open>re.search\<close>: the first start position, from the left, at which the pattern matches;
  the result is the start (as the text before it) and the state at the end of the match.
\<close>

fun search_from :: "ucd \<Rightarrow> bool \<Rightarrow> regex \<Rightarrow> ustr \<Rightarrow> ustr \<Rightarrow> (ustr \<times> mstate) option" where
  "search_from U ic r b [] =
     (case rmatch U ic r (b, [], []) of [] \<Rightarrow> None | m # _ \<Rightarrow> Some (b, m))"
| "search_from U ic r b (c # cs) =
     (case rmatch U ic r (b, c # cs, []) of
        [] \<Rightarrow> search_from U ic r (c # b) cs
      | m # _ \<Rightarrow> Some (b, m))"

definition re_search :: "ucd \<Rightarrow> bool \<Rightarrow> regex \<Rightarrow> ustr \<Rightarrow> (ustr \<times> mstate) option" where
  "re_search U ic r t = search_from U ic r [] t"

definition group :: "nat \<Rightarrow> ustr \<times> mstate \<Rightarrow> ustr option" where
  "group n m = map_of (snd (snd (snd m))) n"

text \<open>
  \<open>re.findall\<close> for a pattern with one capturing group: the text of group 1 of every match,
  scanning from the left, each search starting where the previous match ended. The one
  pattern that the bot passes to \<open>findall\<close> cannot match the empty text; after such a
  match the model moves on by one character.
\<close>

definition group1 :: "mstate \<Rightarrow> ustr" where
  "group1 m = (case map_of (snd (snd m)) 1 of None \<Rightarrow> [] | Some s \<Rightarrow> s)"

function findall_from :: "ucd \<Rightarrow> bool \<Rightarrow> regex \<Rightarrow> ustr \<Rightarrow> ustr \<Rightarrow> ustr list" where
  "findall_from U ic r b a =
     (case rmatch U ic r (b, a, []) of
        [] \<Rightarrow> (case a of [] \<Rightarrow> [] | c # cs \<Rightarrow> findall_from U ic r (c # b) cs)
      | m # _ \<Rightarrow>
          group1 m #
            (if length (fst (snd m)) < length a then findall_from U ic r (fst m) (fst (snd m))
             else (case a of [] \<Rightarrow> [] | c # cs \<Rightarrow> findall_from U ic r (c # b) cs)))"
  by pat_completeness auto
termination
  by (relation "measure (\<lambda>(U, ic, r, b, a). length a)") auto

definition re_findall :: "ucd \<Rightarrow> bool \<Rightarrow> regex \<Rightarrow> ustr \<Rightarrow> ustr list" where
  "re_findall U ic r t = findall_from U ic r [] t"

section \<open>Text classifier\<close>

text \<open>
  The keyword patterns (Cyrillic words are given by their code points: rozygrysh, priz,
  portal with an optional s, ton).
\<close>

definition KEYWORDS :: "regex list" where
  "KEYWORDS =
     [ seq [WordB, lits (asc ''giveaway''), WordB],
       seq [WordB, lits [1088, 1086, 1079, 1099, 1075, 1088, 1099, 1096], WordB],
       seq [WordB, lits (asc ''gift''), Opt (Grp 1 (Atom (Ch 115))), WordB],
       seq [WordB, lits (asc ''star''), Opt (Grp 1 (Atom (Ch 115))), WordB],
       seq [WordB, lits [1087, 1088, 1080, 1079], WordB],
       seq [WordB, lits [1087, 1086, 1088, 1090, 1072, 1083], Opt (Grp 1 (Atom (Ch 1089))), WordB],
       seq [WordB, lits (asc ''portals''), WordB],
       seq [WordB, lits [1090, 1086, 1085], WordB],
       seq [WordB, lits (asc ''ton''), WordB] ]"

definition URL_REGEX :: regex where
  "URL_REGEX =
     Grp 1 (seq [lits (asc ''http''), Opt (Atom (Ch 115)), lits (asc ''://''),
                 Plus (NoneOf [Space])])"

definition extract_links :: "ucd \<Rightarrow> ustr option \<Rightarrow> ustr list" where
  "extract_links U txt = re_findall U True URL_REGEX (case txt of None \<Rightarrow> [] | Some t \<Rightarrow> t)"

text \<open>\<open>text.lower() if text else ""\<close>, the text that the keyword patterns are tried on.\<close>

definition lowered :: "ucd \<Rightarrow> ustr option \<Rightarrow> ustr" where
  "lowered U txt = (case txt of None \<Rightarrow> [] | Some s \<Rightarrow> if s = [] then [] else u_lower U s)"

definition matches_keywords :: "ucd \<Rightarrow> ustr option \<Rightarrow> bool" where
  "matches_keywords U txt =
     (let t = lowered U txt
      in list_ex (\<lambda>pat. re_search U False pat t \<noteq> None) KEYWORDS)"

text \<open>
  The first lines of \<open>handle_forward\<close>: the links of the text and the decision
  \<open>is_giveaway = matches_keywords(text) or bool(links)\<close>.
\<close>

definition classify :: "ucd \<Rightarrow> ustr \<Rightarrow> bool \<times> ustr list" where
  "classify U t =
     (let links = extract_links U (Some t);
          is_giveaway = (matches_keywords U (Some t) \<or> links \<noteq> [])
      in (is_giveaway, links))"

subsection \<open>The keywords in words\<close>

text \<open>
  A keyword match, as the specification words it: one of the twelve words that the nine
  patterns stand for occurs in the text with a word boundary on each side. \<open>word_at\<close>
  says that the word starts at the cursor, \<open>has_word\<close> that it does so somewhere in the
  text; \<open>scan\<close> tries a property of the cursor at every position from the left.
\<close>

definition word_at :: "ucd \<Rightarrow> ustr \<Rightarrow> ustr \<Rightarrow> ustr \<Rightarrow> bool" where
  "word_at U w b a =
     (word_boundary U b a \<and> prefix w a \<and> word_boundary U (rev w @ b) (drop (length w) a))"

fun has_word_from :: "ucd \<Rightarrow> ustr \<Rightarrow> ustr \<Rightarrow> ustr \<Rightarrow> bool" where
  "has_word_from U w b [] = word_at U w b []"
| "has_word_from U w b (c # cs) = (word_at U w b (c # cs) \<or> has_word_from U w (c # b) cs)"

definition has_word :: "ucd \<Rightarrow> ustr \<Rightarrow> ustr \<Rightarrow> bool" where
  "has_word U w t = has_word_from U w [] t"

definition keyword_words :: "ustr list" where
  "keyword_words =
     [ asc ''giveaway'',
       [1088, 1086, 1079, 1099, 1075, 1088, 1099, 1096],
       asc ''gifts'', asc ''gift'',
       asc ''stars'', asc ''star'',
       [1087, 1088, 1080, 1079],
       [1087, 1086, 1088, 1090, 1072, 1083, 1089], [1087, 1086, 1088, 1090, 1072, 1083],
       asc ''portals'',
       [1090, 1086, 1085],
       asc ''ton'' ]"

fun scan :: "(ustr \<Rightarrow> ustr \<Rightarrow> bool) \<Rightarrow> ustr \<Rightarrow> ustr \<Rightarrow> bool" where
  "scan P b [] = P b []"
| "scan P b (c # cs) = (P b (c # cs) \<or> scan P (c # b) cs)"

subsection \<open>The URL pattern in words\<close>

text \<open>
  A link, as the specification words it: the scheme \<open>https\<close> or \<open>http\<close> in any
  letter case, then \<open>://\<close>, then a non-empty run of non-whitespace characters, taken as
  long as possible. \<open>url_at U t\<close> is the length of the link that starts at the head of
  \<open>t\<close>; \<open>url_scan\<close> collects the links from left to right, each search resuming after
  the previous link.
\<close>

fun ci_prefix :: "ucd \<Rightarrow> ustr \<Rightarrow> ustr \<Rightarrow> bool" where
  "ci_prefix U [] t = True"
| "ci_prefix U (p # ps) [] = False"
| "ci_prefix U (p # ps) (c # cs) = (u_caseless U p c \<and> ci_prefix U ps cs)"

definition nonspace_run :: "ucd \<Rightarrow> ustr \<Rightarrow> ustr" where
  "nonspace_run U t = takeWhile (\<lambda>c. \<not> u_space U c) t"

definition url_at :: "ucd \<Rightarrow> ustr \<Rightarrow> nat option" where
  "url_at U t =
     (if ci_prefix U (asc ''https://'') t \<and> nonspace_run U (drop 8 t) \<noteq> []
      then Some (8 + length (nonspace_run U (drop 8 t)))
      else if ci_prefix U (asc ''http://'') t \<and> nonspace_run U (drop 7 t) \<noteq> []
      then Some (7 + length (nonspace_run U (drop 7 t)))
      else None)"

function url_scan :: "ucd \<Rightarrow> ustr \<Rightarrow> ustr list" where
  "url_scan U [] = []"
| "url_scan U (c # cs) =
     (case url_at U (c # cs) of
        None \<Rightarrow> url_scan U cs
      | Some n \<Rightarrow> take n (c # cs) # url_scan U (drop n (c # cs)))"
  by pat_completeness auto
termination
  by (relation "measure (\<lambda>(U, t). length t)") (auto simp: url_at_def split: if_splits)

definition contains_link :: "ucd \<Rightarrow> ustr \<Rightarrow> bool" where
  "contains_link U t = list_ex (\<lambda>s. url_at U s \<noteq> None) (suffixes t)"

section \<open>Deadline extractor\<close>

text \<open>
  Exceptions are values. \<open>ParserError\<close> stands for whatever \<open>dateutil\<close> raises,
  \<open>ValueError\<close> and \<open>OverflowError\<close> are raised by the button handler,
  \<open>LibraryError\<close> stands for any other exception of a library call.
\<close>

datatype pyerr = ParserError | ValueError | OverflowError | LibraryError

text \<open>
  A \<open>datetime\<close>: the date as its proleptic Gregorian ordinal, the wall-clock fields, and
  the \<open>tzinfo\<close> (absent for a naive value). Python orders two values that carry the same
  \<open>tzinfo\<close> by their fields, most significant first.
\<close>

record datetime =
  dt_day :: int
  dt_hour :: nat
  dt_minute :: nat
  dt_second :: nat
  dt_usec :: nat
  dt_tz :: "string option"

fun lex_gt :: "int list \<Rightarrow> int list \<Rightarrow> bool" where
  "lex_gt (x # xs) (y # ys) = (y < x \<or> (x = y \<and> lex_gt xs ys))"
| "lex_gt xs ys = False"

definition dt_fields :: "datetime \<Rightarrow> int list" where
  "dt_fields d =
     [dt_day d, int (dt_hour d), int (dt_minute d), int (dt_second d), int (dt_usec d)]"

definition dt_gt :: "datetime \<Rightarrow> datetime \<Rightarrow> bool" where
  "dt_gt a b = lex_gt (dt_fields a) (dt_fields b)"

definition DEADLINE_HINTS :: "regex list" where
  "DEADLINE_HINTS =
     [ seq [lits [1076, 1086], Plus Space,
            Grp 1 (seq [Rep Digit 1 2, Atom (OneOf [Ch 58, Ch 46]), Rep Digit 2 2])],
       seq [lits (asc ''deadline''), Plus (OneOf [Ch 58, Space]),
            Grp 1 (Plus (NoneOf [Ch 10]))],
       seq [lits [1079, 1072, 1082, 1072, 1085, 1095], StarLazy (NoneOf [Ch 10]),
            Grp 1 (Alt (seq [Rep Digit 1 2, Plus Space, Plus Word])
                       (seq [Rep Digit 1 2, Atom (OneOf [Ch 58, Ch 46]), Rep Digit 2 2]))] ]"

text \<open>
  \<open>dateutil\<close> and the clock are outside the repository. \<open>parse s\<close> stands for
  \<open>dateparser.parse(s, dayfirst=True, fuzzy=True)\<close>, which returns a \<open>datetime\<close> or
  raises; \<open>now tz\<close> stands for \<open>datetime.now(tz)\<close>. Both are parameters.

  The extractor is returned together with the log of the library calls it made, in order,
  so that "was not attempted" can be stated. Where group 1 took no part in a match,
  \<open>m.group(1)\<close> is \<open>None\<close> and the parser raises on it: the loop continues.
\<close>

datatype probe = Parsed ustr | Searched regex

fun logged :: "probe \<Rightarrow> 'a \<times> probe list \<Rightarrow> 'a \<times> probe list" where
  "logged p (r, l) = (r, p # l)"

fun try_hints ::
  "ucd \<Rightarrow> (ustr \<Rightarrow> pyerr + datetime) \<Rightarrow> ustr \<Rightarrow> regex list \<Rightarrow> datetime option \<times> probe list"
where
  "try_hints U parse t [] = (None, [])"
| "try_hints U parse t (pat # pats) =
     logged (Searched pat)
       (case re_search U True pat t of
          None \<Rightarrow> try_hints U parse t pats
        | Some m \<Rightarrow>
            (case group 1 m of
               None \<Rightarrow> try_hints U parse t pats
             | Some s \<Rightarrow>
                 logged (Parsed s)
                   (case parse s of
                      Inr dt \<Rightarrow> (Some dt, [])
                    | Inl e \<Rightarrow> try_hints U parse t pats)))"

definition extract_deadline_log ::
  "ucd \<Rightarrow> (ustr \<Rightarrow> pyerr + datetime) \<Rightarrow> (string option \<Rightarrow> datetime) \<Rightarrow> ustr option
     \<Rightarrow> datetime option \<times> probe list"
where
  "extract_deadline_log U parse now txt =
     (case txt of
        None \<Rightarrow> (None, [])
      | Some t \<Rightarrow>
          if t = [] then (None, [])
          else logged (Parsed t)
                 (case parse t of
                    Inr dt \<Rightarrow>
                      if dt_gt dt (now (dt_tz dt)) then (Some dt, [])
                      else try_hints U parse t DEADLINE_HINTS
                  | Inl e \<Rightarrow> try_hints U parse t DEADLINE_HINTS))"

definition extract_deadline ::
  "ucd \<Rightarrow> (ustr \<Rightarrow> pyerr + datetime) \<Rightarrow> (string option \<Rightarrow> datetime) \<Rightarrow> ustr option
     \<Rightarrow> datetime option"
where
  "extract_deadline U parse now txt = fst (extract_deadline_log U parse now txt)"

text \<open>
  The hint step in words: the patterns in order; the first whose captured phrase parses
  gives the result.
\<close>

definition hint_parse :: "ucd \<Rightarrow> (ustr \<Rightarrow> pyerr + datetime) \<Rightarrow> ustr \<Rightarrow> regex \<Rightarrow> datetime option" where
  "hint_parse U parse t pat =
     (case re_search U True pat t of
        None \<Rightarrow> None
      | Some m \<Rightarrow>
          (case group 1 m of
             None \<Rightarrow> None
           | Some s \<Rightarrow> (case parse s of Inr dt \<Rightarrow> Some dt | Inl e \<Rightarrow> None)))"

definition first :: "'a list \<Rightarrow> 'a option" where
  "first xs = (case xs of [] \<Rightarrow> None | x # _ \<Rightarrow> Some x)"

definition first_hint :: "ucd \<Rightarrow> (ustr \<Rightarrow> pyerr + datetime) \<Rightarrow> ustr \<Rightarrow> datetime option" where
  "first_hint U parse t = first (List.map_filter (hint_parse U parse t) DEADLINE_HINTS)"


section \<open>Event registry and interaction controller\<close>

text \<open>
  \<open>GIVEAWAYS\<close> is a Python \<open>dict\<close>: it keeps its keys in insertion order, an
  assignment to a key that is present replaces the value in place, and an assignment to a
  new key appends. It is modelled as an association list with exactly this update.
\<close>

record giveaway =
  from_chat :: "ustr option"
  text_str :: ustr
  links :: "ustr list"
  deadline :: "datetime option"
  archived :: bool

type_synonym registry = "(string \<times> giveaway) list"

fun dict_set :: "'k \<Rightarrow> 'v \<Rightarrow> ('k \<times> 'v) list \<Rightarrow> ('k \<times> 'v) list" where
  "dict_set k v [] = [(k, v)]"
| "dict_set k v ((k', v') # kvs) =
     (if k' = k then (k, v) # kvs else (k', v') # dict_set k v kvs)"

definition dict_get :: "('k \<times> 'v) list \<Rightarrow> 'k \<Rightarrow> 'v option" where
  "dict_get d k = map_of d k"

text \<open>
  A job of the scheduler holds what the closure \<open>job\<close> of \<open>schedule_reminder\<close>
  captured (the chat and the identifier) and its run date. The state of the bot is the
  registry and the jobs that have not fired yet.
\<close>

record job =
  job_chat :: int
  job_gid :: string
  run_date :: datetime

record bot_state =
  giveaways :: registry
  jobs :: "job list"

text \<open>
  Buttons carry either a link or a callback token; their fixed captions are left out.
\<close>

datatype button = OpenLink ustr | Callback string

definition build_buttons :: "ustr list \<Rightarrow> string \<Rightarrow> button list list" where
  "build_buttons ls gid =
     map (\<lambda>url. [OpenLink url]) (take 4 ls)
       @ [[Callback (''remind:'' @ gid @ '':10''), Callback (''remind:'' @ gid @ '':60'')]]
       @ [[Callback (''archive:'' @ gid)]]"

text \<open>
  What the bot sends. Each constructor is one of the fixed messages of \<open>bot.py\<close> with
  the values that are formatted into it.
\<close>

record card_line =
  line_gid :: string
  line_label :: ustr
  line_links :: nat
  line_deadline :: "datetime option"

datatype outmsg =
    NotGiveaway
  | Card string ustr "datetime option" "button list list"
  | ReminderSet string string
  | SentToArchive string
  | NoActiveCards
  | ActiveCards "card_line list"
  | Reminder int string "button list list"

record chat =
  title :: "ustr option"

record message =
  msg_text :: "ustr option"
  msg_caption :: "ustr option"
  forward_from_chat :: "chat option"

text \<open>
  Python's \<open>x or d\<close> on an optional string: \<open>x\<close> when it is present and non-empty,
  else \<open>d\<close>. The text of a message is \<open>msg.text or msg.caption or ""\<close>.
\<close>

definition or_default :: "ustr option \<Rightarrow> ustr \<Rightarrow> ustr" where
  "or_default x d = (case x of None \<Rightarrow> d | Some s \<Rightarrow> if s = [] then d else s)"

definition message_text :: "message \<Rightarrow> ustr" where
  "message_text msg = or_default (msg_text msg) (or_default (msg_caption msg) [])"

text \<open>
  \<open>handle_forward\<close>. \<open>uuid\<close> is the string of the \<open>uuid4()\<close> drawn by this call
  (random, so an input of the model); the identifier is its first eight characters.
  The fallback caption of a card without source, a Cyrillic word, is given by its code
  points (pereslano).
\<close>

definition handle_forward ::
  "ucd \<Rightarrow> (ustr \<Rightarrow> pyerr + datetime) \<Rightarrow> (string option \<Rightarrow> datetime) \<Rightarrow> string \<Rightarrow> message
     \<Rightarrow> bot_state \<Rightarrow> bot_state \<times> outmsg"
where
  "handle_forward U parse now uuid msg st =
     (let t = message_text msg;
          (is_giveaway, ls) = classify U t
      in if \<not> is_giveaway then (st, NotGiveaway)
         else
           let gid = take 8 uuid;
               dl = extract_deadline U parse now (Some t);
               g = \<lparr> from_chat = (case forward_from_chat msg of None \<Rightarrow> None | Some c \<Rightarrow> title c),
                     text_str = t, links = ls, deadline = dl, archived = False \<rparr>
           in (st\<lparr>giveaways := dict_set gid g (giveaways st)\<rparr>,
               Card gid (or_default (from_chat g) [1087, 1077, 1088, 1077, 1089, 1083, 1072, 1085, 1086])
                 dl (build_buttons ls gid)))"

text \<open>
  The closure \<open>job\<close>: it reads the registry when it runs. A record is a non-empty
  \<open>dict\<close>, so \<open>not g\<close> holds exactly when the identifier is absent.
\<close>

definition job_run :: "registry \<Rightarrow> job \<Rightarrow> outmsg option" where
  "job_run reg j =
     (case dict_get reg (job_gid j) of
        None \<Rightarrow> None
      | Some g \<Rightarrow>
          if archived g then None
          else Some (Reminder (job_chat j) (job_gid j) (build_buttons (links g) (job_gid j))))"

text \<open>A job with a date trigger runs once and leaves the scheduler.\<close>

definition fire :: "job \<Rightarrow> bot_state \<Rightarrow> bot_state \<times> outmsg option" where
  "fire j st = (st\<lparr>jobs := remove1 j (jobs st)\<rparr>, job_run (giveaways st) j)"

text \<open>
  \<open>datetime.now() + timedelta(minutes=minutes)\<close>: the date must stay within the years
  1 to 9999 (ordinals 1 to 3652059), else \<open>OverflowError\<close>.
\<close>

definition add_minutes :: "datetime \<Rightarrow> int \<Rightarrow> pyerr + datetime" where
  "add_minutes d m =
     (let total = int (dt_hour d) * 60 + int (dt_minute d) + m;
          day' = dt_day d + total div 1440;
          r = total mod 1440
      in if day' < 1 \<or> 3652059 < day' then Inl OverflowError
         else Inr (d\<lparr>dt_day := day', dt_hour := nat (r div 60), dt_minute := nat (r mod 60)\<rparr>))"

text \<open>
  Two library calls of the button handler are outside the repository and are parameters:
  \<open>to_int s\<close> stands for the built-in \<open>int(s)\<close>, absent when it raises
  \<open>ValueError\<close>, and \<open>add_job when\<close> for
  \<open>scheduler.add_job(job, "date", run_date=when)\<close>, the exception that it raises, if
  any (the scheduler converts the run date to its time zone and may refuse it).
\<close>

record pylib =
  to_int :: "string \<Rightarrow> int option"
  add_job :: "datetime \<Rightarrow> pyerr option"

definition schedule_reminder :: "pylib \<Rightarrow> datetime \<Rightarrow> int \<Rightarrow> string \<Rightarrow> int \<Rightarrow> bot_state \<Rightarrow> pyerr + bot_state" where
  "schedule_reminder L now_local chat_id gid minutes st =
     (case add_minutes now_local minutes of
        Inl e \<Rightarrow> Inl e
      | Inr when \<Rightarrow>
          (case add_job L when of
             Some e \<Rightarrow> Inl e
           | None \<Rightarrow>
               Inr (st\<lparr>jobs := jobs st @ [\<lparr>job_chat = chat_id, job_gid = gid, run_date = when\<rparr>]\<rparr>)))"

text \<open>\<open>str.split(":")\<close> on the callback token.\<close>

fun split_on :: "char \<Rightarrow> string \<Rightarrow> string list" where
  "split_on d [] = [[]]"
| "split_on d (c # cs) =
     (if c = d then [] # split_on d cs
      else (case split_on d cs of [] \<Rightarrow> [[c]] | p # ps \<Rightarrow> (c # p) # ps))"

text \<open>
  \<open>on_button\<close>. Unpacking the split token into the wrong number of names and
  \<open>int\<close> of a non-number raise \<open>ValueError\<close>; what \<open>schedule_reminder\<close>
  raises is not caught either. A token with neither prefix is only answered
  (\<open>q.answer()\<close>), nothing is edited.
\<close>

definition archive :: "string \<Rightarrow> registry \<Rightarrow> registry" where
  "archive gid reg =
     (case dict_get reg gid of
        None \<Rightarrow> reg
      | Some g \<Rightarrow> dict_set gid (g\<lparr>archived := True\<rparr>) reg)"

definition on_button ::
  "pylib \<Rightarrow> datetime \<Rightarrow> int \<Rightarrow> string \<Rightarrow> bot_state \<Rightarrow> pyerr + (bot_state \<times> outmsg option)"
where
  "on_button L now_local chat_id data st =
     (if prefix ''remind:'' data then
        (case split_on CHR '':'' data of
           [_, gid, mins] \<Rightarrow>
             (case to_int L mins of
                None \<Rightarrow> Inl ValueError
              | Some m \<Rightarrow>
                  (case schedule_reminder L now_local chat_id gid m st of
                     Inl e \<Rightarrow> Inl e
                   | Inr st' \<Rightarrow> Inr (st', Some (ReminderSet mins gid))))
         | _ \<Rightarrow> Inl ValueError)
      else if prefix ''archive:'' data then
        (case split_on CHR '':'' data of
           [_, gid] \<Rightarrow> Inr (st\<lparr>giveaways := archive gid (giveaways st)\<rparr>, Some (SentToArchive gid))
         | _ \<Rightarrow> Inl ValueError)
      else Inr (st, None))"

text \<open>\<open>list_cmd\<close>: the cards that are not archived, in the order of the registry, the
  first twenty of them rendered.\<close>

definition active_cards :: "registry \<Rightarrow> (string \<times> giveaway) list" where
  "active_cards reg = filter (\<lambda>(gid, g). \<not> archived g) reg"

definition render_line :: "string \<times> giveaway \<Rightarrow> card_line" where
  "render_line p =
     \<lparr> line_gid = fst p, line_label = or_default (from_chat (snd p)) (asc ''unknown''),
       line_links = length (links (snd p)), line_deadline = deadline (snd p) \<rparr>"

definition list_cmd :: "bot_state \<Rightarrow> outmsg" where
  "list_cmd st =
     (let active = active_cards (giveaways st)
      in if active = [] then NoActiveCards
         else ActiveCards (map render_line (take 20 active)))"


definition shown_lines :: "outmsg \<Rightarrow> card_line list" where
  "shown_lines m = (case m of ActiveCards ls \<Rightarrow> ls | _ \<Rightarrow> [])"

section \<open>An instance of the parser and the clock, for examples\<close>

text \<open>
  On a text whose only date or time token is a clock time \<open>H:MM\<close> or \<open>HH:MM\<close>,
  \<open>dateutil\<close> returns that time on today's date, without time zone; it raises when it
  finds no date or time at all. \<open>clock_parse today\<close> is this behaviour, and
  \<open>clock_at day h m\<close> a clock that shows the given local time.
\<close>

definition digits_nat :: "ustr \<Rightarrow> nat" where
  "digits_nat ds = foldl (\<lambda>a c. a * 10 + (c - 48)) 0 ds"

definition clock_at :: "int \<Rightarrow> nat \<Rightarrow> nat \<Rightarrow> string option \<Rightarrow> datetime" where
  "clock_at day h m tz =
     \<lparr> dt_day = day, dt_hour = h, dt_minute = m, dt_second = 0, dt_usec = 0, dt_tz = tz \<rparr>"

definition clock_parse :: "int \<Rightarrow> ustr \<Rightarrow> pyerr + datetime" where
  "clock_parse today s =
     (case re_search basic_ucd False
             (seq [Grp 1 (Rep Digit 1 2), Atom (Ch 58), Grp 2 (Rep Digit 2 2)]) s of
        None \<Rightarrow> Inl ParserError
      | Some m \<Rightarrow>
          (case (group 1 m, group 2 m) of
             (Some h, Some mi) \<Rightarrow>
               if digits_nat h < 24 \<and> digits_nat mi < 60
               then Inr (clock_at today (digits_nat h) (digits_nat mi) None)
               else Inl ParserError
           | _ \<Rightarrow> Inl ParserError))"


text \<open>
  Instances of the two library calls, for examples. \<open>py_int\<close> is \<open>int\<close> of
  CPython 3.11 on a string of characters below 256: white space is stripped at both ends
  (the six ASCII white space characters, and the two others below 256, U+0085 and
  U+00A0), then an optional sign and decimal digits follow, single underscores allowed
  between digits, at most 4300 digits. \<open>sample_add_job\<close> accepts a run date away
  from the two ends of the calendar and raises \<open>ValueError\<close> otherwise.
\<close>

definition is_ws :: "char \<Rightarrow> bool" where
  "is_ws c = (let n = (of_char c :: nat)
              in n = 32 \<or> (9 \<le> n \<and> n \<le> 13) \<or> n = 133 \<or> n = 160)"

definition is_dec :: "char \<Rightarrow> bool" where
  "is_dec c = (let n = (of_char c :: nat) in 48 \<le> n \<and> n \<le> 57)"

fun dec_digits :: "int \<Rightarrow> bool \<Rightarrow> string \<Rightarrow> int option" where
  "dec_digits acc d [] = (if d then Some acc else None)"
| "dec_digits acc d (c # cs) =
     (if is_dec c then dec_digits (acc * 10 + (of_char c - 48)) True cs
      else if c = CHR ''_'' \<and> d then dec_digits acc False cs
      else None)"

definition dec_value :: "string \<Rightarrow> int option" where
  "dec_value s = (if 4300 < length (filter is_dec s) then None else dec_digits 0 False s)"

definition strip :: "string \<Rightarrow> string" where
  "strip s = rev (dropWhile is_ws (rev (dropWhile is_ws s)))"

definition py_int :: "string \<Rightarrow> int option" where
  "py_int s =
     (case strip s of
        [] \<Rightarrow> None
      | c # cs \<Rightarrow>
          if c = CHR ''-'' then map_option uminus (dec_value cs)
          else if c = CHR ''+'' then dec_value cs
          else dec_value (c # cs))"

definition sample_add_job :: "datetime \<Rightarrow> pyerr option" where
  "sample_add_job when = (if dt_day when \<le> 1 \<or> 3652059 \<le> dt_day when then Some ValueError else None)"

definition sample_lib :: pylib where
  "sample_lib = \<lparr> to_int = py_int, add_job = sample_add_job \<rparr>"

text \<open>The text "do 18:00" (until 18:00), its first word in Cyrillic.\<close>

definition until_1800 :: ustr where
  "until_1800 = [1076, 1086] @ asc '' 18:00''"

text \<open>States, cards and messages for examples.\<close>

definition no_cards :: bot_state where
  "no_cards = \<lparr> giveaways = [], jobs = [] \<rparr>"

definition sample_card :: giveaway where
  "sample_card =
     \<lparr> from_chat = None, text_str = asc ''win ton'', links = [], deadline = None,
       archived = False \<rparr>"

definition plain_message :: "string \<Rightarrow> message" where
  "plain_message s = \<lparr> msg_text = Some (asc s), msg_caption = None, forward_from_chat = None \<rparr>"

definition forwarded_message :: "string \<Rightarrow> string \<Rightarrow> message" where
  "forwarded_message s ch =
     \<lparr> msg_text = Some (asc s), msg_caption = None,
       forward_from_chat = Some \<lparr> title = Some (asc ch) \<rparr> \<rparr>"

text \<open>The state in which a link of length \<open>n\<close> that starts at \<open>a\<close> ends.\<close>

definition url_end :: "ustr \<Rightarrow> ustr \<Rightarrow> nat \<Rightarrow> mstate" where
  "url_end b a n = (rev (take n a) @ b, drop n a, [(1, take n a)])"


section \<open>Properties of the matcher\<close>

lemma url_at_pos: "url_at U t = Some n \<Longrightarrow> 0 < n"
  by (auto simp: url_at_def split: if_splits)

lemma first_simps [simp]: "first [] = None" "first (x # xs) = Some x"
  by (simp_all add: first_def)

lemma first_append: "first (xs @ ys) = (case first xs of None \<Rightarrow> first ys | Some x \<Rightarrow> Some x)"
  by (cases xs) simp_all

lemma rmatch_lits:
  "rmatch U True (lits p) (b, a, g) =
     (if ci_prefix U p a then [(rev (take (length p) a) @ b, drop (length p) a, g)] else [])"
proof (induction p arbitrary: b a)
  case Nil
  then show ?case by simp
next
  case (Cons c p)
  show ?case
  proof (cases a)
    case Nil
    then show ?thesis by simp
  next
    case (Cons x xs)
    then show ?thesis using Cons.IH [of "x # b" xs] by simp
  qed
qed

lemma greedy_all_shape:
  "\<exists>rest. greedy_all U ic k (b, a, g) =
      (rev (takeWhile (cls_match U ic k) a) @ b, dropWhile (cls_match U ic k) a, g) # rest
    \<and> (\<forall>s \<in> set rest. length (fst s) < length (takeWhile (cls_match U ic k) a) + length b)
    \<and> (takeWhile (cls_match U ic k) a = [] \<longrightarrow> rest = [])"
proof (induction a arbitrary: b)
  case Nil
  then show ?case by simp
next
  case (Cons c cs)
  show ?case
  proof (cases "cls_match U ic k c")
    case True
    from Cons.IH [of "c # b"] obtain rest where
      r: "greedy_all U ic k (c # b, cs, g) =
            (rev (takeWhile (cls_match U ic k) cs) @ c # b, dropWhile (cls_match U ic k) cs, g) # rest"
      and l: "\<forall>s \<in> set rest. length (fst s) < length (takeWhile (cls_match U ic k) cs) + length (c # b)"
      by blast
    show ?thesis
      using True r l by auto
  next
    case False
    then show ?thesis by simp
  qed
qed

lemma first_plus:
  "first (rmatch U ic (Plus k) (b, a, g)) =
     (if takeWhile (cls_match U ic k) a = [] then None
      else Some (rev (takeWhile (cls_match U ic k) a) @ b, dropWhile (cls_match U ic k) a, g))"
proof -
  obtain rest where
    r: "greedy_all U ic k (b, a, g) =
          (rev (takeWhile (cls_match U ic k) a) @ b, dropWhile (cls_match U ic k) a, g) # rest"
    and e: "takeWhile (cls_match U ic k) a = [] \<longrightarrow> rest = []"
    using greedy_all_shape [of U ic k b a g] by blast
  show ?thesis
    using r e by (cases "takeWhile (cls_match U ic k) a") (auto simp: at_least_def)
qed

lemma concat_singletons: "concat (map (\<lambda>s. [s]) xs) = xs"
  by (induction xs) simp_all

lemma rmatch_cat_eps: "rmatch U ic (Cat r Eps) s = rmatch U ic r s"
proof -
  have "rmatch U ic Eps = (\<lambda>s. [s])"
    by (rule ext) simp
  then show ?thesis
    by (simp add: concat_singletons)
qed

lemma rmatch_cat_lits:
  "rmatch U True (Cat (lits p) r) (b, a, g) =
     (if ci_prefix U p a then rmatch U True r (rev (take (length p) a) @ b, drop (length p) a, g)
      else [])"
  by (simp add: rmatch_lits)

lemma first_map: "first (map f xs) = map_option f (first xs)"
  by (cases xs) simp_all

lemma first_nonspace_plus:
  "first (rmatch U True (Plus (NoneOf [Space])) (b, a, g)) =
     (if nonspace_run U a = [] then None
      else Some (rev (take (length (nonspace_run U a)) a) @ b,
                 drop (length (nonspace_run U a)) a, g))"
proof -
  have c: "cls_match U True (NoneOf [Space]) = (\<lambda>c. \<not> u_space U c)"
    by (rule ext) simp
  have t: "take (length (nonspace_run U a)) a = nonspace_run U a"
    unfolding nonspace_run_def by (rule takeWhile_eq_take [symmetric])
  have d: "drop (length (nonspace_run U a)) a = dropWhile (\<lambda>c. \<not> u_space U c) a"
    unfolding nonspace_run_def by (rule dropWhile_eq_drop [symmetric])
  show ?thesis
    unfolding first_plus c t d by (simp add: nonspace_run_def)
qed

lemma first_url_tail:
  "first (rmatch U True (seq [lits p, Plus (NoneOf [Space])]) (b, a, g)) =
     (if ci_prefix U p a \<and> nonspace_run U (drop (length p) a) \<noteq> []
      then Some (rev (take (length p + length (nonspace_run U (drop (length p) a))) a) @ b,
                 drop (length p + length (nonspace_run U (drop (length p) a))) a, g)
      else None)"
proof -
  let ?n = "length (nonspace_run U (drop (length p) a))"
  have "rmatch U True (seq [lits p, Plus (NoneOf [Space])]) (b, a, g) =
        (if ci_prefix U p a
         then rmatch U True (Plus (NoneOf [Space])) (rev (take (length p) a) @ b, drop (length p) a, g)
         else [])"
    using rmatch_cat_lits [of U p "Cat (Plus (NoneOf [Space])) Eps" b a g]
    by (simp only: seq.simps rmatch_cat_eps)
  then have "first (rmatch U True (seq [lits p, Plus (NoneOf [Space])]) (b, a, g)) =
        (if ci_prefix U p a
         then first (rmatch U True (Plus (NoneOf [Space]))
                (rev (take (length p) a) @ b, drop (length p) a, g))
         else None)"
    by (simp del: rmatch.simps seq.simps)
  also have "\<dots> =
        (if ci_prefix U p a \<and> nonspace_run U (drop (length p) a) \<noteq> []
         then Some (rev (take ?n (drop (length p) a)) @ rev (take (length p) a) @ b,
                    drop ?n (drop (length p) a), g)
         else None)"
    unfolding first_nonspace_plus by simp
  also have "rev (take ?n (drop (length p) a)) @ rev (take (length p) a) @ b =
             rev (take (length p + ?n) a) @ b"
    by (simp add: take_add)
  also have "drop ?n (drop (length p) a) = drop (length p + ?n) a"
    by (simp add: add.commute)
  finally show ?thesis .
qed


lemma ci_prefix_append:
  "ci_prefix U (p @ q) a = (ci_prefix U p a \<and> ci_prefix U q (drop (length p) a))"
proof (induction p arbitrary: a)
  case Nil
  then show ?case by simp
next
  case (Cons c p)
  then show ?case by (cases a) simp_all
qed

lemma rmatch_atom_ch:
  "rmatch U True (Atom (Ch l)) (b, a, g) =
     (if ci_prefix U [l] a then [(rev (take 1 a) @ b, drop 1 a, g)] else [])"
  by (cases a) simp_all

lemma rev_take_drop: "rev (take n (drop m a)) @ rev (take m a) @ b = rev (take (m + n) a) @ b"
  by (simp add: take_add)

lemma first_concat_singleton:
  "first (concat (map f (if c then [x] else [])) @ ys) =
     (case (if c then first (f x) else None) of None \<Rightarrow> first ys | Some y \<Rightarrow> Some y)"
  by (simp add: first_append)

lemma first_opt_letter:
  "first (rmatch U True (Cat (lits p) (Cat (Opt (Atom (Ch l))) r)) (b, a, g)) =
     (if ci_prefix U p a
      then (case (if ci_prefix U [l] (drop (length p) a)
                  then first (rmatch U True r (rev (take (length p + 1) a) @ b, drop (length p + 1) a, g))
                  else None) of
              None \<Rightarrow> first (rmatch U True r (rev (take (length p) a) @ b, drop (length p) a, g))
            | Some y \<Rightarrow> Some y)
      else None)"
proof -
  have "rmatch U True (Cat (Opt (Atom (Ch l))) r) (b', a', g) =
          concat (map (rmatch U True r)
             (if ci_prefix U [l] a' then [(rev (take 1 a') @ b', drop 1 a', g)] else []))
          @ rmatch U True r (b', a', g)" for b' a'
    using rmatch_atom_ch [of U l b' a' g] by simp
  then have "first (rmatch U True (Cat (Opt (Atom (Ch l))) r) (b', a', g)) =
          (case (if ci_prefix U [l] a'
                 then first (rmatch U True r (rev (take 1 a') @ b', drop 1 a', g)) else None) of
             None \<Rightarrow> first (rmatch U True r (b', a', g))
           | Some y \<Rightarrow> Some y)" for b' a'
    by (simp only: first_concat_singleton)
  note o = this [of "rev (take (length p) a) @ b" "drop (length p) a"]
  have "first (rmatch U True (Cat (lits p) (Cat (Opt (Atom (Ch l))) r)) (b, a, g)) =
        (if ci_prefix U p a
         then first (rmatch U True (Cat (Opt (Atom (Ch l))) r)
                 (rev (take (length p) a) @ b, drop (length p) a, g))
         else None)"
    by (simp only: rmatch_cat_lits if_distrib [of first] first_simps)
  also note o
  also have "rev (take 1 (drop (length p) a)) @ rev (take (length p) a) @ b =
             rev (take (length p + 1) a) @ b"
    by (rule rev_take_drop)
  also have "drop 1 (drop (length p) a) = drop (length p + 1) a"
    by (simp add: add.commute)
  finally show ?thesis .
qed


lemma capture_url_end:
  "capture (Suc 0) b (rev (take n a) @ b, drop n a, []) = url_end b a n"
  by (simp add: url_end_def)

lemma first_grp:
  "first (rmatch U ic (Grp n r) (b, a, g)) = map_option (capture n b) (first (rmatch U ic r (b, a, g)))"
  by (simp add: first_map)

lemma url_at_unfold:
  "url_at U a =
     (if ci_prefix U (asc ''http'') a
      then (case (if ci_prefix U [115] (drop 4 a)
                  then (if ci_prefix U (asc ''://'') (drop 5 a) \<and> nonspace_run U (drop 8 a) \<noteq> []
                        then Some (8 + length (nonspace_run U (drop 8 a))) else None)
                  else None) of
              None \<Rightarrow> (if ci_prefix U (asc ''://'') (drop 4 a) \<and> nonspace_run U (drop 7 a) \<noteq> []
                        then Some (7 + length (nonspace_run U (drop 7 a))) else None)
            | Some y \<Rightarrow> Some y)
      else None)"
proof -
  have 1: "asc ''https://'' = asc ''http'' @ [115] @ asc ''://''"
    by (simp add: asc_def)
  have 2: "asc ''http://'' = asc ''http'' @ asc ''://''"
    by (simp add: asc_def)
  have 3: "length (asc ''http'') = 4"
    by (simp add: asc_def)
  show ?thesis
    unfolding url_at_def 1 2 ci_prefix_append 3 by auto
qed

lemma first_url:
  "first (rmatch U True URL_REGEX (b, a, [])) = map_option (url_end b a) (url_at U a)"
proof -
  let ?T = "seq [lits (asc ''://''), Plus (NoneOf [Space])]"
  let ?R = "Cat (lits (asc ''http'')) (Cat (Opt (Atom (Ch 115))) ?T)"
  have 3: "length (asc ''http'') = 4" "length (asc ''://'') = 3"
    by (simp_all add: asc_def)
  have U: "URL_REGEX = Grp 1 ?R"
    by (simp add: URL_REGEX_def)
  have H: "first (rmatch U True ?R (b, a, [])) =
     (if ci_prefix U (asc ''http'') a
      then (case (if ci_prefix U [115] (drop 4 a)
                  then (if ci_prefix U (asc ''://'') (drop 5 a) \<and> nonspace_run U (drop 8 a) \<noteq> []
                        then Some (rev (take (8 + length (nonspace_run U (drop 8 a))) a) @ b,
                                   drop (8 + length (nonspace_run U (drop 8 a))) a, [])
                        else None)
                  else None) of
              None \<Rightarrow> (if ci_prefix U (asc ''://'') (drop 4 a) \<and> nonspace_run U (drop 7 a) \<noteq> []
                        then Some (rev (take (7 + length (nonspace_run U (drop 7 a))) a) @ b,
                                   drop (7 + length (nonspace_run U (drop 7 a))) a, [])
                        else None)
            | Some y \<Rightarrow> Some y)
      else None)"
    unfolding first_opt_letter first_url_tail 3
    by (auto simp add: rev_take_drop add.commute simp del: rmatch.simps seq.simps)
  show ?thesis
    unfolding U first_grp H url_at_unfold
    by (auto simp add: capture_url_end simp del: capture.simps)
qed


lemma findall_from_first:
  "findall_from U ic r b a =
     (case first (rmatch U ic r (b, a, [])) of
        None \<Rightarrow> (case a of [] \<Rightarrow> [] | c # cs \<Rightarrow> findall_from U ic r (c # b) cs)
      | Some m \<Rightarrow>
          group1 m #
            (if length (fst (snd m)) < length a then findall_from U ic r (fst m) (fst (snd m))
             else (case a of [] \<Rightarrow> [] | c # cs \<Rightarrow> findall_from U ic r (c # b) cs)))"
  by (subst findall_from.simps) (simp add: first_def split: list.splits)

lemma url_at_Nil: "url_at U [] = None"
  by (simp add: url_at_def asc_def)

lemma group1_url_end: "group1 (url_end b a n) = take n a"
  by (simp add: group1_def url_end_def)

lemma url_end_sel:
  "fst (url_end b a n) = rev (take n a) @ b" "fst (snd (url_end b a n)) = drop n a"
  by (simp_all add: url_end_def)

lemma findall_url_scan: "findall_from U True URL_REGEX b a = url_scan U a"
proof (induction U a arbitrary: b rule: url_scan.induct)
  case (1 U)
  show ?case
    by (subst findall_from_first) (simp add: first_url url_at_Nil del: findall_from.simps)
next
  case (2 U c cs)
  show ?case
  proof (cases "url_at U (c # cs)")
    case None
    then show ?thesis
      using "2.IH"(1) [OF None, of "c # b"]
      by (subst findall_from_first) (simp add: first_url del: findall_from.simps)
  next
    case (Some n)
    have "0 < n" using Some by (rule url_at_pos)
    then have l: "length (drop n (c # cs)) < length (c # cs)"
      by simp
    show ?thesis
      using "2.IH"(2) [OF Some, of "rev (take n (c # cs)) @ b"] l
      by (subst findall_from_first)
         (simp add: first_url Some group1_url_end url_end_sel del: findall_from.simps)
  qed
qed


section \<open>Text classifier: links\<close>

lemma extract_links_scan: "extract_links U (Some t) = url_scan U t"
  by (simp add: extract_links_def re_findall_def findall_url_scan del: findall_from.simps)

text \<open>
  Claim C2. For every text, the links that \<open>extract_links\<close> returns are exactly the
  substrings that match the URL pattern (\<open>http\<close> or \<open>https\<close> in any letter case,
  \<open>://\<close>, a maximal non-empty run of non-whitespace), from left to right, repeated links
  kept; an absent text and the empty text give the empty list.
\<close>

theorem extract_links_url_scan:
  "extract_links U (Some t) = url_scan U t
   \<and> extract_links U None = []
   \<and> extract_links U (Some []) = []"
proof -
  have "extract_links U None = extract_links U (Some [])"
    by (simp add: extract_links_def)
  then show ?thesis
    by (simp add: extract_links_scan)
qed

theorem extract_links_url_scan_witness:
  "extract_links basic_ucd (Some (asc ''go HTTP://a.b/c now https://t.me/x HTTP://a.b/c''))
     = [asc ''HTTP://a.b/c'', asc ''https://t.me/x'', asc ''HTTP://a.b/c'']
   \<and> url_scan basic_ucd (asc ''go HTTP://a.b/c now https://t.me/x HTTP://a.b/c'')
     = [asc ''HTTP://a.b/c'', asc ''https://t.me/x'', asc ''HTTP://a.b/c'']"
proof -
  have "url_scan basic_ucd (asc ''go HTTP://a.b/c now https://t.me/x HTTP://a.b/c'')
          = [asc ''HTTP://a.b/c'', asc ''https://t.me/x'', asc ''HTTP://a.b/c'']"
    by code_simp
  then show ?thesis
    using extract_links_url_scan [of basic_ucd "asc ''go HTTP://a.b/c now https://t.me/x HTTP://a.b/c''"]
    by simp
qed

lemma contains_link_scan: "contains_link U t = (url_scan U t \<noteq> [])"
proof (induction U t rule: url_scan.induct)
  case (1 U)
  show ?case
    by (simp add: contains_link_def url_at_Nil)
next
  case (2 U c cs)
  show ?case
  proof (cases "url_at U (c # cs)")
    case None
    then show ?thesis
      using "2.IH"(1) [OF None] by (simp add: contains_link_def)
  next
    case (Some n)
    then show ?thesis
      by (simp add: contains_link_def)
  qed
qed

section \<open>Text classifier: the decision\<close>

lemma rmatch_lits_exact:
  "rmatch U False (lits p) (b, a, g) =
     (if prefix p a then [(rev p @ b, drop (length p) a, g)] else [])"
proof (induction p arbitrary: b a)
  case Nil
  then show ?case by simp
next
  case (Cons c p)
  show ?case
  proof (cases a)
    case Nil
    then show ?thesis by simp
  next
    case (Cons x xs)
    then show ?thesis using Cons.IH [of "x # b" xs] by auto
  qed
qed

lemma rmatch_cat_wordb:
  "rmatch U ic (Cat WordB r) (b, a, g) = (if word_boundary U b a then rmatch U ic r (b, a, g) else [])"
  by simp

lemma rmatch_cat_lits_exact:
  "rmatch U False (Cat (lits p) r) (b, a, g) =
     (if prefix p a then rmatch U False r (rev p @ b, drop (length p) a, g) else [])"
  by (simp add: rmatch_lits_exact)

lemma rmatch_word:
  "(rmatch U False (seq [WordB, lits w, WordB]) (b, a, []) \<noteq> []) = word_at U w b a"
  unfolding seq.simps rmatch_cat_wordb rmatch_cat_lits_exact rmatch_cat_eps
  by (simp add: word_at_def)

lemma prefix_snoc_drop:
  "prefix (w @ [s]) a \<longleftrightarrow> prefix w a \<and> (\<exists>cs. drop (length w) a = s # cs)"
  by (auto simp: prefix_def)

lemma drop_Suc_of: "drop n a = x # xs \<Longrightarrow> drop (Suc n) a = xs"
  by (simp add: drop_Suc drop_tl)

lemma rmatch_word_opt:
  "(rmatch U False (seq [WordB, lits w, Opt (Grp 1 (Atom (Ch s))), WordB]) (b, a, []) \<noteq> [])
     = (word_at U (w @ [s]) b a \<or> word_at U w b a)"
proof -
  have o: "(rmatch U False (Cat (Opt (Grp 1 (Atom (Ch s)))) (Cat WordB Eps)) (b', a', []) \<noteq> [])
      = ((\<exists>cs. a' = s # cs \<and> word_boundary U (s # b') cs) \<or> word_boundary U b' a')" for b' a'
    by (cases a') auto
  have "(rmatch U False (seq [WordB, lits w, Opt (Grp 1 (Atom (Ch s))), WordB]) (b, a, []) \<noteq> [])
      = (word_boundary U b a \<and> prefix w a
         \<and> ((\<exists>cs. drop (length w) a = s # cs \<and> word_boundary U (s # rev w @ b) cs)
              \<or> word_boundary U (rev w @ b) (drop (length w) a)))"
    unfolding seq.simps rmatch_cat_wordb rmatch_cat_lits_exact
    using o [of "rev w @ b" "drop (length w) a"]
    by (simp del: rmatch.simps)
  also have "\<dots> = (word_at U (w @ [s]) b a \<or> word_at U w b a)"
    by (auto simp: word_at_def prefix_snoc_drop drop_Suc_of)
  finally show ?thesis .
qed

lemma search_from_scan:
  "(search_from U ic r b a \<noteq> None) = scan (\<lambda>b a. rmatch U ic r (b, a, []) \<noteq> []) b a"
  by (induction a arbitrary: b) (auto split: list.splits)

lemma scan_word: "scan (word_at U w) b a = has_word_from U w b a"
  by (induction a arbitrary: b) auto

lemma scan_or: "scan (\<lambda>b a. P b a \<or> Q b a) b a = (scan P b a \<or> scan Q b a)"
  by (induction a arbitrary: b) auto

lemma search_word:
  "(re_search U False (seq [WordB, lits w, WordB]) t \<noteq> None) = has_word U w t"
  by (simp only: re_search_def search_from_scan rmatch_word scan_word has_word_def)

lemma search_word_opt:
  "(re_search U False (seq [WordB, lits w, Opt (Grp 1 (Atom (Ch s))), WordB]) t \<noteq> None)
     = (has_word U (w @ [s]) t \<or> has_word U w t)"
  by (simp only: re_search_def search_from_scan rmatch_word_opt scan_or scan_word has_word_def)

lemma keywords_words:
  "list_ex (\<lambda>pat. re_search U False pat t \<noteq> None) KEYWORDS
     = list_ex (\<lambda>w. has_word U w t) keyword_words"
proof -
  have a: "asc ''gifts'' = asc ''gift'' @ [115]" "asc ''stars'' = asc ''star'' @ [115]"
    by (simp_all add: asc_def)
  have c: "[1087, 1086, 1088, 1090, 1072, 1083, 1089] = [1087, 1086, 1088, 1090, 1072, 1083] @ [1089 :: nat]"
    by simp
  show ?thesis
    unfolding KEYWORDS_def keyword_words_def a c
    by (simp only: list_ex_Nil_iff list_ex_Cons_iff search_word search_word_opt disj_assoc simp_thms)
qed

lemma ex_list_split: "(\<exists>pre. Q pre) \<longleftrightarrow> Q [] \<or> (\<exists>x pre. Q (x # pre))"
  by (metis list.exhaust)

lemma has_word_from_iff:
  "has_word_from U w b a \<longleftrightarrow>
     (\<exists>pre post. a = pre @ w @ post \<and> word_boundary U (rev pre @ b) (w @ post)
        \<and> word_boundary U (rev w @ rev pre @ b) post)"
proof (induction a arbitrary: b)
  case Nil
  show ?case
    by (auto simp: word_at_def)
next
  case (Cons c cs)
  have 1: "word_at U w b (c # cs) \<longleftrightarrow>
      (\<exists>post. c # cs = w @ post \<and> word_boundary U b (w @ post) \<and> word_boundary U (rev w @ b) post)"
    by (auto simp: word_at_def prefix_def)
  show ?case
    unfolding has_word_from.simps Cons.IH 1
    by (subst (2) ex_list_split) auto
qed

text \<open>
  Claim C1. A text is a candidate exactly when its lower-cased form matches one of the
  keyword patterns or at least one link was extracted from it. A keyword pattern matches
  exactly when one of the keyword words occurs with a word boundary on each side. In
  particular a text that contains a link is a candidate whatever its words are, and a
  text with no keyword and no link is not.
\<close>

theorem classify_candidate:
  "fst (classify U t)
     = (list_ex (\<lambda>pat. re_search U False pat (lowered U (Some t)) \<noteq> None) KEYWORDS
        \<or> snd (classify U t) \<noteq> [])
   \<and> list_ex (\<lambda>pat. re_search U False pat (lowered U (Some t)) \<noteq> None) KEYWORDS
     = list_ex (\<lambda>w. has_word U w (lowered U (Some t))) keyword_words
   \<and> (has_word U w s \<longleftrightarrow>
        (\<exists>pre post. s = pre @ w @ post \<and> word_boundary U (rev pre) (w @ post)
           \<and> word_boundary U (rev w @ rev pre) post))
   \<and> snd (classify U t) = extract_links U (Some t)
   \<and> (contains_link U t \<longrightarrow> fst (classify U t))
   \<and> (\<not> list_ex (\<lambda>w. has_word U w (lowered U (Some t))) keyword_words \<and> \<not> contains_link U t
        \<longrightarrow> \<not> fst (classify U t))"
proof -
  have l: "snd (classify U t) = extract_links U (Some t)"
    by (simp add: classify_def Let_def)
  have c: "fst (classify U t)
     = (list_ex (\<lambda>pat. re_search U False pat (lowered U (Some t)) \<noteq> None) KEYWORDS
        \<or> extract_links U (Some t) \<noteq> [])"
    by (simp add: classify_def matches_keywords_def Let_def)
  have s: "contains_link U t = (extract_links U (Some t) \<noteq> [])"
    by (simp add: contains_link_scan extract_links_scan)
  have w: "has_word U w s \<longleftrightarrow>
        (\<exists>pre post. s = pre @ w @ post \<and> word_boundary U (rev pre) (w @ post)
           \<and> word_boundary U (rev w @ rev pre) post)"
    using has_word_from_iff [of U w "[]" s] by (simp add: has_word_def)
  show ?thesis
    unfolding l c s keywords_words using w by blast
qed

theorem classify_candidate_witness:
  "fst (classify basic_ucd (asc ''see http://a.b''))
   \<and> contains_link basic_ucd (asc ''see http://a.b'')
   \<and> fst (classify basic_ucd (asc ''Free GIFTS''))
   \<and> has_word basic_ucd (asc ''gifts'') (lowered basic_ucd (Some (asc ''Free GIFTS'')))
   \<and> \<not> contains_link basic_ucd (asc ''Free GIFTS'')
   \<and> \<not> fst (classify basic_ucd (asc ''gifted tone''))"
proof -
  let ?kw = "\<lambda>t. list_ex (\<lambda>w. has_word basic_ucd w (lowered basic_ucd (Some t))) keyword_words"
  have 1: "contains_link basic_ucd (asc ''see http://a.b'')"
    by code_simp
  have 2: "has_word basic_ucd (asc ''gifts'') (lowered basic_ucd (Some (asc ''Free GIFTS'')))"
    by code_simp
  have 3: "?kw (asc ''Free GIFTS'')"
    by code_simp
  have 4: "\<not> contains_link basic_ucd (asc ''Free GIFTS'')"
    by code_simp
  have 5: "\<not> ?kw (asc ''gifted tone'')"
    by code_simp
  have 6: "\<not> contains_link basic_ucd (asc ''gifted tone'')"
    by code_simp
  show ?thesis
    using classify_candidate [of basic_ucd "asc ''see http://a.b''"]
      classify_candidate [of basic_ucd "asc ''Free GIFTS''"]
      classify_candidate [of basic_ucd "asc ''gifted tone''"]
      1 2 3 4 5 6
    by blast
qed

section \<open>Deadline extractor: the steps\<close>

lemma fst_logged: "fst (logged p x) = fst x"
  by (cases x) simp

lemma try_hints_first:
  "fst (try_hints U parse t pats) = first (List.map_filter (hint_parse U parse t) pats)"
proof (induction pats)
  case Nil
  show ?case
    by (simp add: List.map_filter_simps)
next
  case (Cons pat pats)
  show ?case
    using Cons.IH
    by (simp add: fst_logged List.map_filter_simps hint_parse_def
          split: option.splits sum.splits)
qed

lemma lex_gt_irrefl: "\<not> lex_gt xs xs"
  by (induction xs) simp_all

text \<open>
  Claim C10. For an absent or empty text the extractor returns absent at once: the log of
  library calls is empty, so neither the general parse nor any hint pattern was tried.
  (For any other text the log is not empty: it starts with the general parse.)
\<close>

theorem extract_deadline_no_text:
  "extract_deadline_log U parse now None = (None, [])
   \<and> extract_deadline_log U parse now (Some []) = (None, [])
   \<and> extract_deadline U parse now None = None
   \<and> extract_deadline U parse now (Some []) = None
   \<and> (t \<noteq> [] \<longrightarrow> first (snd (extract_deadline_log U parse now (Some t))) = Some (Parsed t))"
proof -
  have "first (snd (logged (Parsed t) x)) = Some (Parsed t)" for x :: "datetime option \<times> probe list"
    by (cases x) simp
  then show ?thesis
    by (simp add: extract_deadline_log_def extract_deadline_def)
qed

theorem extract_deadline_no_text_witness:
  "extract_deadline_log basic_ucd (clock_parse 739000) (clock_at 739000 19 0) (Some []) = (None, [])
   \<and> first (snd (extract_deadline_log basic_ucd (clock_parse 739000) (clock_at 739000 19 0)
        (Some (asc ''at 21:00'')))) = Some (Parsed (asc ''at 21:00''))"
proof -
  have "asc ''at 21:00'' \<noteq> []"
    by (simp add: asc_def)
  then show ?thesis
    using extract_deadline_no_text [of basic_ucd "clock_parse 739000" "clock_at 739000 19 0" "asc ''at 21:00''"]
    by blast
qed

text \<open>
  Claim C5. The result of the general parse of the whole text is accepted only when it is
  strictly after the current time (a result equal to it, or before it, is dropped); when
  it is dropped, or when the parse raises, the result is that of the hint patterns: the
  first pattern, in order, that matches and whose captured phrase parses. A parse that
  raises there is skipped. No exception leaves the extractor: its result is an optional
  \<open>datetime\<close>.
\<close>

theorem extract_deadline_steps:
  "t \<noteq> [] \<longrightarrow>
     extract_deadline U parse now (Some t) =
       (case parse t of
          Inr dt \<Rightarrow> if dt_gt dt (now (dt_tz dt)) then Some dt else first_hint U parse t
        | Inl e \<Rightarrow> first_hint U parse t)
     \<and> (\<forall>dt. parse t = Inr dt \<and> dt_fields dt = dt_fields (now (dt_tz dt))
           \<longrightarrow> extract_deadline U parse now (Some t) = first_hint U parse t)"
proof -
  have "\<not> dt_gt dt (now (dt_tz dt))" if "dt_fields dt = dt_fields (now (dt_tz dt))" for dt
    using that by (simp add: dt_gt_def lex_gt_irrefl)
  then show ?thesis
    by (auto simp: extract_deadline_def extract_deadline_log_def fst_logged first_hint_def
          try_hints_first split: sum.splits)
qed


theorem extract_deadline_steps_witness:
  "extract_deadline basic_ucd (clock_parse 739000) (clock_at 739000 17 0)
       (Some until_1800) = Some (clock_at 739000 18 0 None)
   \<and> extract_deadline basic_ucd (clock_parse 739000) (clock_at 739000 18 0)
       (Some until_1800)
       = first_hint basic_ucd (clock_parse 739000) until_1800
   \<and> extract_deadline basic_ucd (clock_parse 739000) (clock_at 739000 17 0)
       (Some (asc ''deadline: soon''))
       = first_hint basic_ucd (clock_parse 739000) (asc ''deadline: soon'')
   \<and> first_hint basic_ucd (clock_parse 739000) (asc ''deadline: soon'') = None"
proof -
  let ?t = until_1800
  have p: "clock_parse 739000 ?t = Inr (clock_at 739000 18 0 None)"
    by code_simp
  have q: "clock_parse 739000 (asc ''deadline: soon'') = Inl ParserError"
    by code_simp
  have g: "dt_gt (clock_at 739000 18 0 None) (clock_at 739000 17 0 None)"
    by code_simp
  have e: "\<not> dt_gt (clock_at 739000 18 0 None) (clock_at 739000 18 0 None)"
    by code_simp
  have z: "dt_tz (clock_at 739000 18 0 None) = None"
    by (simp add: clock_at_def)
  have n: "?t \<noteq> []" "asc ''deadline: soon'' \<noteq> []"
    by (simp_all add: asc_def until_1800_def)
  have h: "first_hint basic_ucd (clock_parse 739000) (asc ''deadline: soon'') = None"
    by code_simp
  show ?thesis
    using extract_deadline_steps [of ?t basic_ucd "clock_parse 739000" "clock_at 739000 17 0"]
      extract_deadline_steps [of ?t basic_ucd "clock_parse 739000" "clock_at 739000 18 0"]
      extract_deadline_steps [of "asc ''deadline: soon''" basic_ucd "clock_parse 739000" "clock_at 739000 17 0"]
      n h
    by (simp add: p q g e z)
qed

text \<open>
  Claim C4. The claim asks that a deadline found by a hint pattern is never before the
  current time. The hint step of \<open>extract_deadline\<close> returns what the parser gives for
  the captured phrase and does not compare it with the clock, unlike the general parse
  before it. At 19:00, the text "do 18:00" (in Cyrillic) gives 18:00 of the same day: the
  general parse finds it and drops it as not in the future, the first hint pattern then
  returns it.
\<close>

theorem hint_deadline_in_the_past:
  "extract_deadline basic_ucd (clock_parse 739000) (clock_at 739000 19 0)
       (Some until_1800) = Some (clock_at 739000 18 0 None)
   \<and> dt_gt (clock_at 739000 19 0 None) (clock_at 739000 18 0 None)"
  by code_simp

section \<open>Registry: the dictionary\<close>

lemma dict_get_set: "dict_get (dict_set k v d) k' = (if k' = k then Some v else dict_get d k')"
  by (induction d) (auto simp: dict_get_def)

lemma dict_get_None: "dict_get d k = None \<longleftrightarrow> k \<notin> fst ` set d"
  by (simp add: dict_get_def map_of_eq_None_iff)

lemma dict_set_new: "k \<notin> fst ` set d \<Longrightarrow> dict_set k v d = d @ [(k, v)]"
  by (induction d) auto

lemma dict_set_keys: "k \<in> fst ` set d \<Longrightarrow> map fst (dict_set k v d) = map fst d"
  by (induction d) force+

lemma dict_set_twice: "dict_set k v (dict_set k w d) = dict_set k v d"
  by (induction d) auto

lemma archive_absent: "dict_get reg gid = None \<Longrightarrow> archive gid reg = reg"
  by (simp add: archive_def)

lemma archive_get:
  "dict_get (archive gid reg) k =
     (if k = gid then map_option (\<lambda>g. g\<lparr>archived := True\<rparr>) (dict_get reg k) else dict_get reg k)"
  by (simp add: archive_def dict_get_set split: option.splits)

lemma archive_keys: "map fst (archive gid reg) = map fst reg"
proof (cases "dict_get reg gid")
  case None
  then show ?thesis by (simp add: archive_def)
next
  case (Some g)
  then have "gid \<in> fst ` set reg"
    using dict_get_None [of reg gid] by auto
  then show ?thesis
    using Some by (simp add: archive_def dict_set_keys)
qed

lemma archive_twice: "archive gid (archive gid reg) = archive gid reg"
proof (cases "dict_get reg gid")
  case None
  then show ?thesis by (simp add: archive_def)
next
  case (Some g)
  have "dict_get (archive gid reg) gid = Some (g\<lparr>archived := True\<rparr>)"
    using Some by (simp add: archive_get)
  then show ?thesis
    using Some by (simp add: archive_def dict_set_twice)
qed

section \<open>Callback tokens\<close>

lemma split_on_none: "d \<notin> set a \<Longrightarrow> split_on d a = [a]"
  by (induction a) auto

lemma split_on_first: "d \<notin> set a \<Longrightarrow> split_on d (a @ d # rest) = a # split_on d rest"
  by (induction a) auto

lemma split_archive:
  "CHR '':'' \<notin> set gid \<Longrightarrow> split_on CHR '':'' (''archive:'' @ gid) = [''archive'', gid]"
  using split_on_first [of "CHR '':''" "''archive''" gid] by (simp add: split_on_none)

lemma split_remind:
  "CHR '':'' \<notin> set gid \<Longrightarrow> CHR '':'' \<notin> set mins \<Longrightarrow>
     split_on CHR '':'' (''remind:'' @ gid @ '':'' @ mins) = [''remind'', gid, mins]"
  using split_on_first [of "CHR '':''" "''remind''" "gid @ '':'' @ mins"]
    split_on_first [of "CHR '':''" gid mins]
  by (simp add: split_on_none)

lemma on_button_archive:
  "CHR '':'' \<notin> set gid \<Longrightarrow>
     on_button L now_local chat_id (''archive:'' @ gid) st =
       Inr (st\<lparr>giveaways := archive gid (giveaways st)\<rparr>, Some (SentToArchive gid))"
  using split_archive [of gid] by (simp add: on_button_def)

lemma on_button_remind:
  "CHR '':'' \<notin> set gid \<Longrightarrow> CHR '':'' \<notin> set mins \<Longrightarrow>
     on_button L now_local chat_id (''remind:'' @ gid @ '':'' @ mins) st =
       (case to_int L mins of
          None \<Rightarrow> Inl ValueError
        | Some m \<Rightarrow>
            (case add_minutes now_local m of
               Inl e \<Rightarrow> Inl e
             | Inr w \<Rightarrow>
                 (case add_job L w of
                    Some e \<Rightarrow> Inl e
                  | None \<Rightarrow>
                      Inr (st\<lparr>jobs := jobs st @ [\<lparr>job_chat = chat_id, job_gid = gid, run_date = w\<rparr>]\<rparr>,
                           Some (ReminderSet mins gid)))))"
  using split_remind [of gid mins]
  by (simp add: on_button_def schedule_reminder_def split: option.splits sum.splits)

lemma on_button_reply_any_state:
  "map_sum id snd (on_button L now_local chat_id data st2) = map_sum id snd (on_button L now_local chat_id data st)"
  by (simp add: on_button_def schedule_reminder_def split: list.splits option.splits sum.splits)

lemma on_button_keeps_flags:
  assumes "on_button L now_local chat_id data st = Inr (st', r)"
    and "dict_get (giveaways st) k = Some g"
  shows "\<exists>g'. dict_get (giveaways st') k = Some g' \<and> (archived g \<longrightarrow> archived g')"
  using assms
  by (auto simp: on_button_def schedule_reminder_def archive_get
        split: if_splits list.splits option.splits sum.splits)

lemma on_button_keys:
  assumes "on_button L now_local chat_id data st = Inr (st', r)"
  shows "map fst (giveaways st') = map fst (giveaways st)"
  using assms
  by (auto simp: on_button_def schedule_reminder_def archive_keys
        split: if_splits list.splits option.splits sum.splits)

section \<open>Reminders\<close>

lemma job_run_silent:
  "dict_get reg (job_gid j) = None \<or> (\<exists>g. dict_get reg (job_gid j) = Some g \<and> archived g)
     \<Longrightarrow> job_run reg j = None"
  by (auto simp: job_run_def)

text \<open>
  Claim C3. When a reminder job for an identifier fires and the identifier is archived, or
  is not in the registry, the callback sends nothing. The callback looks the identifier
  up in the registry as it is when the job fires: the job keeps only the chat and the
  identifier, a card that is active when the job fires is notified, and a card that was
  active when the reminder was set and is archived before the job fires is not.
\<close>

theorem reminder_checked_when_fired:
  "job_gid j = X \<longrightarrow>
     ((dict_get (giveaways st) X = None \<or> (\<exists>g. dict_get (giveaways st) X = Some g \<and> archived g))
        \<longrightarrow> snd (fire j st) = None \<and> giveaways (fst (fire j st)) = giveaways st)
     \<and> ((\<exists>g. dict_get (giveaways st) X = Some g \<and> \<not> archived g)
        \<longrightarrow> (\<exists>bs. snd (fire j st) = Some (Reminder (job_chat j) X bs)))
     \<and> (\<forall>st0 t0 c0 m st1 t1 c1 st2 r.
          CHR '':'' \<notin> set X
          \<and> schedule_reminder L0 t0 c0 X m st0 = Inr st1
          \<and> on_button L t1 c1 (''archive:'' @ X) st1 = Inr (st2, r)
          \<longrightarrow> jobs st2 \<noteq> [] \<and> job_gid (last (jobs st2)) = X \<and> job_chat (last (jobs st2)) = c0
              \<and> snd (fire (last (jobs st2)) st2) = None)"
proof -
  have a: "snd (fire j st) = None \<and> giveaways (fst (fire j st)) = giveaways st"
    if "job_gid j = X"
      "dict_get (giveaways st) X = None \<or> (\<exists>g. dict_get (giveaways st) X = Some g \<and> archived g)"
    using that job_run_silent [of "giveaways st" j] by (simp add: fire_def)
  have b: "\<exists>bs. snd (fire j st) = Some (Reminder (job_chat j) X bs)"
    if "job_gid j = X" "\<exists>g. dict_get (giveaways st) X = Some g \<and> \<not> archived g"
    using that by (auto simp: fire_def job_run_def)
  have c: "jobs st2 \<noteq> [] \<and> job_gid (last (jobs st2)) = X \<and> job_chat (last (jobs st2)) = c0
              \<and> snd (fire (last (jobs st2)) st2) = None"
    if h: "CHR '':'' \<notin> set X" "schedule_reminder L0 t0 c0 X m st0 = Inr st1"
      "on_button L t1 c1 (''archive:'' @ X) st1 = Inr (st2, r)"
    for st0 t0 c0 m st1 t1 c1 st2 r
  proof -
    obtain w where w: "st1 = st0\<lparr>jobs := jobs st0 @ [\<lparr>job_chat = c0, job_gid = X, run_date = w\<rparr>]\<rparr>"
      using h(2) by (auto simp: schedule_reminder_def split: sum.splits option.splits)
    have s2: "st2 = st1\<lparr>giveaways := archive X (giveaways st1)\<rparr>"
      using h(3) on_button_archive [OF h(1), of L t1 c1 st1] by simp
    have l: "last (jobs st2) = \<lparr>job_chat = c0, job_gid = X, run_date = w\<rparr>" "jobs st2 \<noteq> []"
      using w s2 by simp_all
    have "dict_get (giveaways st2) X = None \<or> (\<exists>g. dict_get (giveaways st2) X = Some g \<and> archived g)"
      using s2 by (cases "dict_get (giveaways st1) X") (simp_all add: archive_get)
    then have "job_run (giveaways st2) (last (jobs st2)) = None"
      using job_run_silent [of "giveaways st2" "last (jobs st2)"] l by simp
    then show ?thesis
      using l by (simp add: fire_def)
  qed
  show ?thesis
    using a b c by blast
qed

theorem reminder_checked_when_fired_witness:
  "snd (fire \<lparr>job_chat = 7, job_gid = ''deadbeef'', run_date = clock_at 739000 19 10 None\<rparr>
          \<lparr>giveaways = [(''deadbeef'', sample_card\<lparr>archived := True\<rparr>)], jobs = []\<rparr>) = None
   \<and> snd (fire \<lparr>job_chat = 7, job_gid = ''deadbeef'', run_date = clock_at 739000 19 10 None\<rparr>
          \<lparr>giveaways = [(''deadbeef'', sample_card)], jobs = []\<rparr>)
       = Some (Reminder 7 ''deadbeef'' (build_buttons [] ''deadbeef''))
   \<and> (case on_button sample_lib (clock_at 739000 19 0 None) 7 ''remind:deadbeef:10''
              \<lparr>giveaways = [(''deadbeef'', sample_card)], jobs = []\<rparr> of
         Inl e \<Rightarrow> False
       | Inr (s1, r1) \<Rightarrow>
           (case on_button sample_lib (clock_at 739000 19 5 None) 7 ''archive:deadbeef'' s1 of
              Inl e \<Rightarrow> False
            | Inr (s2, r2) \<Rightarrow> jobs s2 \<noteq> [] \<and> snd (fire (last (jobs s2)) s2) = None))"
proof -
  let ?j = "\<lparr>job_chat = 7, job_gid = ''deadbeef'', run_date = clock_at 739000 19 10 None\<rparr>"
  let ?s = "\<lparr>giveaways = [(''deadbeef'', sample_card\<lparr>archived := True\<rparr>)], jobs = []\<rparr>"
  have 1: "job_gid ?j = ''deadbeef''"
    by simp
  have 2: "dict_get (giveaways ?s) ''deadbeef'' = None
            \<or> (\<exists>g. dict_get (giveaways ?s) ''deadbeef'' = Some g \<and> archived g)"
    by (simp add: dict_get_def)
  have 3: "snd (fire ?j \<lparr>giveaways = [(''deadbeef'', sample_card)], jobs = []\<rparr>)
       = Some (Reminder 7 ''deadbeef'' (build_buttons [] ''deadbeef''))"
    by (simp add: fire_def job_run_def dict_get_def sample_card_def)
  have 4: "(case on_button sample_lib (clock_at 739000 19 0 None) 7 ''remind:deadbeef:10''
              \<lparr>giveaways = [(''deadbeef'', sample_card)], jobs = []\<rparr> of
         Inl e \<Rightarrow> False
       | Inr (s1, r1) \<Rightarrow>
           (case on_button sample_lib (clock_at 739000 19 5 None) 7 ''archive:deadbeef'' s1 of
              Inl e \<Rightarrow> False
            | Inr (s2, r2) \<Rightarrow> jobs s2 \<noteq> [] \<and> snd (fire (last (jobs s2)) s2) = None))"
    by code_simp
  show ?thesis
    using reminder_checked_when_fired [of ?j "''deadbeef''" ?s] 1 2 3 4 by blast
qed


section \<open>Creating a card\<close>

lemma handle_forward_candidate:
  "fst (classify U (message_text msg)) \<Longrightarrow>
     handle_forward U parse now uuid msg st =
       (st\<lparr>giveaways :=
             dict_set (take 8 uuid)
               \<lparr> from_chat = (case forward_from_chat msg of None \<Rightarrow> None | Some c \<Rightarrow> title c),
                 text_str = message_text msg,
                 links = snd (classify U (message_text msg)),
                 deadline = extract_deadline U parse now (Some (message_text msg)),
                 archived = False \<rparr>
               (giveaways st)\<rparr>,
        Card (take 8 uuid)
          (or_default (case forward_from_chat msg of None \<Rightarrow> None | Some c \<Rightarrow> title c)
             [1087, 1077, 1088, 1077, 1089, 1083, 1072, 1085, 1086])
          (extract_deadline U parse now (Some (message_text msg)))
          (build_buttons (snd (classify U (message_text msg))) (take 8 uuid)))"
  by (cases "classify U (message_text msg)") (simp add: handle_forward_def Let_def)

lemma handle_forward_rejected:
  "\<not> fst (classify U (message_text msg)) \<Longrightarrow>
     handle_forward U parse now uuid msg st = (st, NotGiveaway)"
  by (cases "classify U (message_text msg)") (simp add: handle_forward_def Let_def)


text \<open>
  Claim C6, as the code has it. A candidate message is stored under the identifier that
  the call generated (the first eight characters of its \<open>uuid4\<close>), with
  \<open>archived\<close> false, and every card under another identifier stays as it was. When the
  identifier is new the card is appended. When the identifier is already in the registry,
  the card that was stored under it is replaced by the new one, and the registry has no
  more identifiers than before: nothing detects the collision.
\<close>

theorem create_under_generated_id:
  "fst (classify U (message_text msg)) \<longrightarrow>
     (\<exists>g. dict_get (giveaways (fst (handle_forward U parse now uuid msg st))) (take 8 uuid) = Some g
          \<and> \<not> archived g \<and> text_str g = message_text msg
          \<and> links g = extract_links U (Some (message_text msg))
          \<and> deadline g = extract_deadline U parse now (Some (message_text msg))
          \<and> (dict_get (giveaways st) (take 8 uuid) = None
               \<longrightarrow> giveaways (fst (handle_forward U parse now uuid msg st))
                     = giveaways st @ [(take 8 uuid, g)]))
     \<and> (\<forall>k. k \<noteq> take 8 uuid
           \<longrightarrow> dict_get (giveaways (fst (handle_forward U parse now uuid msg st))) k
                 = dict_get (giveaways st) k)
     \<and> (dict_get (giveaways st) (take 8 uuid) \<noteq> None
           \<longrightarrow> map fst (giveaways (fst (handle_forward U parse now uuid msg st)))
                 = map fst (giveaways st))
     \<and> jobs (fst (handle_forward U parse now uuid msg st)) = jobs st
     \<and> (\<exists>label dl bs. snd (handle_forward U parse now uuid msg st) = Card (take 8 uuid) label dl bs)"
proof -
  have l: "snd (classify U (message_text msg)) = extract_links U (Some (message_text msg))"
    by (simp add: classify_def Let_def)
  have n: "dict_get (giveaways st) (take 8 uuid) = None \<Longrightarrow> take 8 uuid \<notin> fst ` set (giveaways st)"
    by (simp add: dict_get_None)
  have p: "dict_get (giveaways st) (take 8 uuid) \<noteq> None \<Longrightarrow> take 8 uuid \<in> fst ` set (giveaways st)"
    by (simp add: dict_get_None)
  show ?thesis
    using n p
    by (auto simp: handle_forward_candidate dict_get_set l dict_set_new dict_set_keys
          simp del: dict_set.simps)
qed

theorem create_under_generated_id_witness:
  "fst (classify basic_ucd (message_text (plain_message ''win ton'')))
   \<and> giveaways (fst (handle_forward basic_ucd (clock_parse 739000) (clock_at 739000 19 0)
        ''3f2a9c1e-7b4d-4e8a-9c0f-5d6e7f8a9b0c'' (plain_message ''win ton'') no_cards))
     = [(''3f2a9c1e'', sample_card)]
   \<and> jobs (fst (handle_forward basic_ucd (clock_parse 739000) (clock_at 739000 19 0)
        ''3f2a9c1e-7b4d-4e8a-9c0f-5d6e7f8a9b0c'' (plain_message ''win ton'') no_cards)) = []"
proof -
  let ?st = "fst (handle_forward basic_ucd (clock_parse 739000) (clock_at 739000 19 0)
        ''3f2a9c1e-7b4d-4e8a-9c0f-5d6e7f8a9b0c'' (plain_message ''win ton'') no_cards)"
  have c: "fst (classify basic_ucd (message_text (plain_message ''win ton'')))"
    by code_simp
  have v: "giveaways ?st = [(''3f2a9c1e'', sample_card)]"
    by code_simp
  have "jobs ?st = jobs no_cards"
    using create_under_generated_id [of basic_ucd "plain_message ''win ton''"
        "clock_parse 739000" "clock_at 739000 19 0" "''3f2a9c1e-7b4d-4e8a-9c0f-5d6e7f8a9b0c''" no_cards]
      c
    by blast
  then show ?thesis
    using c v by (simp add: no_cards_def)
qed

text \<open>
  The claim as the specification states it fails: two messages whose generated
  identifiers agree in their first eight characters get the same identifier, and the
  card of the first message is gone from the registry after the second.
\<close>

theorem colliding_ids_counterexample:
  "snd (handle_forward basic_ucd (clock_parse 739000) (clock_at 739000 19 0)
        ''3f2a9c1e-7b4d-4e8a-9c0f-5d6e7f8a9b0c'' (plain_message ''win ton'') no_cards)
     = Card ''3f2a9c1e'' [1087, 1077, 1088, 1077, 1089, 1083, 1072, 1085, 1086] None
         (build_buttons [] ''3f2a9c1e'')
   \<and> snd (handle_forward basic_ucd (clock_parse 739000) (clock_at 739000 19 0)
        ''3f2a9c1e-0000-4111-8222-333344445555'' (plain_message ''free gift'')
        (fst (handle_forward basic_ucd (clock_parse 739000) (clock_at 739000 19 0)
           ''3f2a9c1e-7b4d-4e8a-9c0f-5d6e7f8a9b0c'' (plain_message ''win ton'') no_cards)))
     = Card ''3f2a9c1e'' [1087, 1077, 1088, 1077, 1089, 1083, 1072, 1085, 1086] None
         (build_buttons [] ''3f2a9c1e'')
   \<and> map (\<lambda>p. (fst p, text_str (snd p)))
       (giveaways (fst (handle_forward basic_ucd (clock_parse 739000) (clock_at 739000 19 0)
        ''3f2a9c1e-0000-4111-8222-333344445555'' (plain_message ''free gift'')
        (fst (handle_forward basic_ucd (clock_parse 739000) (clock_at 739000 19 0)
           ''3f2a9c1e-7b4d-4e8a-9c0f-5d6e7f8a9b0c'' (plain_message ''win ton'') no_cards)))))
     = [(''3f2a9c1e'', asc ''free gift'')]"
  by code_simp

section \<open>Archiving\<close>

lemma archive_same:
  assumes "dict_get reg gid = Some g" "archived g"
  shows "archive gid reg = reg"
proof -
  have "dict_set k v d = d" if "map_of d k = Some v" for k :: string and v :: giveaway and d
    using that by (induction d) (auto split: if_splits)
  moreover have "g\<lparr>archived := True\<rparr> = g"
    using assms(2) by simp
  ultimately show ?thesis
    using assms(1) by (simp add: archive_def dict_get_def)
qed

lemma handle_forward_other_ids:
  "k \<noteq> take 8 uuid \<Longrightarrow>
     dict_get (giveaways (fst (handle_forward U parse now uuid msg st))) k = dict_get (giveaways st) k"
  by (cases "fst (classify U (message_text msg))")
     (simp_all add: handle_forward_candidate handle_forward_rejected dict_get_set)

lemma handle_forward_new_flag:
  "fst (classify U (message_text msg)) \<Longrightarrow>
     \<exists>g. dict_get (giveaways (fst (handle_forward U parse now uuid msg st))) (take 8 uuid) = Some g
         \<and> \<not> archived g"
  by (simp add: handle_forward_candidate dict_get_set)

text \<open>
  Claim C7, as the code has it. The archive action on a token \<open>archive:<id>\<close> (an
  identifier has no colon) never raises. On an identifier that is present it sets
  \<open>archived\<close> and changes nothing else; on one that is already archived or not present
  it leaves the registry as it is, so a second archive of the same identifier changes
  nothing. The reply is the same acknowledgement, "sent to archive", in every case: it
  does not say whether anything changed.

  The flag under an identifier goes from false to true only, with one exception. No
  button action takes a card out of the registry or resets its flag, a job that fires
  changes no card, a message that is rejected changes nothing, and a message that is
  stored leaves the cards under every other identifier as they are. The exception is a
  message stored under an identifier that is already in the registry: its card, not
  archived, replaces the one that was there.
\<close>

theorem archive_action:
  "CHR '':'' \<notin> set gid \<longrightarrow>
     on_button L now_local chat_id (''archive:'' @ gid) st
       = Inr (st\<lparr>giveaways := archive gid (giveaways st)\<rparr>, Some (SentToArchive gid))
     \<and> (\<forall>g. dict_get (giveaways st) gid = Some g
           \<longrightarrow> dict_get (archive gid (giveaways st)) gid = Some (g\<lparr>archived := True\<rparr>))
     \<and> (\<forall>k. k \<noteq> gid \<longrightarrow> dict_get (archive gid (giveaways st)) k = dict_get (giveaways st) k)
     \<and> map fst (archive gid (giveaways st)) = map fst (giveaways st)
     \<and> (dict_get (giveaways st) gid = None \<longrightarrow> archive gid (giveaways st) = giveaways st)
     \<and> (\<forall>g. dict_get (giveaways st) gid = Some g \<and> archived g
           \<longrightarrow> archive gid (giveaways st) = giveaways st)
     \<and> archive gid (archive gid (giveaways st)) = archive gid (giveaways st)
     \<and> (\<forall>L' data t c st' r k g.
           on_button L' t c data st = Inr (st', r) \<and> dict_get (giveaways st) k = Some g
           \<longrightarrow> (\<exists>g'. dict_get (giveaways st') k = Some g' \<and> (archived g \<longrightarrow> archived g')))
     \<and> (\<forall>j. giveaways (fst (fire j st)) = giveaways st)
     \<and> (\<forall>U parse now uuid msg.
           \<not> fst (classify U (message_text msg))
           \<longrightarrow> fst (handle_forward U parse now uuid msg st) = st)
     \<and> (\<forall>U parse now uuid msg k.
           k \<noteq> take 8 uuid
           \<longrightarrow> dict_get (giveaways (fst (handle_forward U parse now uuid msg st))) k
                 = dict_get (giveaways st) k)
     \<and> (\<forall>U parse now uuid msg.
           fst (classify U (message_text msg))
           \<longrightarrow> (\<exists>g. dict_get (giveaways (fst (handle_forward U parse now uuid msg st))) (take 8 uuid)
                        = Some g
                    \<and> \<not> archived g))"
proof -
  have f: "giveaways (fst (fire j st)) = giveaways st" for j
    by (simp add: fire_def)
  have r: "fst (handle_forward U parse now uuid msg st) = st"
    if "\<not> fst (classify U (message_text msg))" for U parse now uuid msg
    using that by (simp add: handle_forward_rejected)
  have a: "CHR '':'' \<notin> set gid \<longrightarrow>
     on_button L now_local chat_id (''archive:'' @ gid) st
       = Inr (st\<lparr>giveaways := archive gid (giveaways st)\<rparr>, Some (SentToArchive gid))
     \<and> (\<forall>g. dict_get (giveaways st) gid = Some g
           \<longrightarrow> dict_get (archive gid (giveaways st)) gid = Some (g\<lparr>archived := True\<rparr>))
     \<and> (\<forall>k. k \<noteq> gid \<longrightarrow> dict_get (archive gid (giveaways st)) k = dict_get (giveaways st) k)
     \<and> map fst (archive gid (giveaways st)) = map fst (giveaways st)
     \<and> (dict_get (giveaways st) gid = None \<longrightarrow> archive gid (giveaways st) = giveaways st)
     \<and> (\<forall>g. dict_get (giveaways st) gid = Some g \<and> archived g
           \<longrightarrow> archive gid (giveaways st) = giveaways st)
     \<and> archive gid (archive gid (giveaways st)) = archive gid (giveaways st)"
    using on_button_archive [of gid L now_local chat_id st] archive_same [of "giveaways st" gid]
      archive_absent [of "giveaways st" gid] archive_twice [of gid "giveaways st"]
      archive_keys [of gid "giveaways st"]
    by (simp add: archive_get)
  have k: "\<forall>L' data t c st' r k g.
           on_button L' t c data st = Inr (st', r) \<and> dict_get (giveaways st) k = Some g
           \<longrightarrow> (\<exists>g'. dict_get (giveaways st') k = Some g' \<and> (archived g \<longrightarrow> archived g'))"
    using on_button_keeps_flags by blast
  have f': "\<forall>j. giveaways (fst (fire j st)) = giveaways st"
    using f by simp
  have r': "\<forall>U parse now uuid msg.
           \<not> fst (classify U (message_text msg))
           \<longrightarrow> fst (handle_forward U parse now uuid msg st) = st"
    using r by simp
  have o: "\<forall>U parse now uuid msg k.
           k \<noteq> take 8 uuid
           \<longrightarrow> dict_get (giveaways (fst (handle_forward U parse now uuid msg st))) k
                 = dict_get (giveaways st) k"
    using handle_forward_other_ids by simp
  have n: "\<forall>U parse now uuid msg.
           fst (classify U (message_text msg))
           \<longrightarrow> (\<exists>g. dict_get (giveaways (fst (handle_forward U parse now uuid msg st))) (take 8 uuid)
                        = Some g
                    \<and> \<not> archived g)"
    using handle_forward_new_flag by simp
  show ?thesis
  proof (rule impI)
    assume h: "CHR '':'' \<notin> set gid"
    show "on_button L now_local chat_id (''archive:'' @ gid) st
       = Inr (st\<lparr>giveaways := archive gid (giveaways st)\<rparr>, Some (SentToArchive gid))
     \<and> (\<forall>g. dict_get (giveaways st) gid = Some g
           \<longrightarrow> dict_get (archive gid (giveaways st)) gid = Some (g\<lparr>archived := True\<rparr>))
     \<and> (\<forall>k. k \<noteq> gid \<longrightarrow> dict_get (archive gid (giveaways st)) k = dict_get (giveaways st) k)
     \<and> map fst (archive gid (giveaways st)) = map fst (giveaways st)
     \<and> (dict_get (giveaways st) gid = None \<longrightarrow> archive gid (giveaways st) = giveaways st)
     \<and> (\<forall>g. dict_get (giveaways st) gid = Some g \<and> archived g
           \<longrightarrow> archive gid (giveaways st) = giveaways st)
     \<and> archive gid (archive gid (giveaways st)) = archive gid (giveaways st)
     \<and> (\<forall>L' data t c st' r k g.
           on_button L' t c data st = Inr (st', r) \<and> dict_get (giveaways st) k = Some g
           \<longrightarrow> (\<exists>g'. dict_get (giveaways st') k = Some g' \<and> (archived g \<longrightarrow> archived g')))
     \<and> (\<forall>j. giveaways (fst (fire j st)) = giveaways st)
     \<and> (\<forall>U parse now uuid msg.
           \<not> fst (classify U (message_text msg))
           \<longrightarrow> fst (handle_forward U parse now uuid msg st) = st)
     \<and> (\<forall>U parse now uuid msg k.
           k \<noteq> take 8 uuid
           \<longrightarrow> dict_get (giveaways (fst (handle_forward U parse now uuid msg st))) k
                 = dict_get (giveaways st) k)
     \<and> (\<forall>U parse now uuid msg.
           fst (classify U (message_text msg))
           \<longrightarrow> (\<exists>g. dict_get (giveaways (fst (handle_forward U parse now uuid msg st))) (take 8 uuid)
                        = Some g
                    \<and> \<not> archived g))"
      using a [THEN mp, OF h] k f' r' o n
      by (elim conjE) (intro conjI; assumption)
  qed
qed

theorem archive_action_witness:
  "on_button sample_lib (clock_at 739000 19 0 None) 7 ''archive:deadbeef''
       \<lparr>giveaways = [(''deadbeef'', sample_card)], jobs = []\<rparr>
     = Inr (\<lparr>giveaways = [(''deadbeef'', sample_card\<lparr>archived := True\<rparr>)], jobs = []\<rparr>,
            Some (SentToArchive ''deadbeef''))"
proof -
  have "CHR '':'' \<notin> set ''deadbeef''"
    by simp
  moreover have "archive ''deadbeef'' [(''deadbeef'', sample_card)]
                   = [(''deadbeef'', sample_card\<lparr>archived := True\<rparr>)]"
    by (simp add: archive_def dict_get_def)
  ultimately show ?thesis
    using archive_action [of "''deadbeef''" sample_lib "clock_at 739000 19 0 None" 7
        "\<lparr>giveaways = [(''deadbeef'', sample_card)], jobs = []\<rparr>"]
    by simp
qed

text \<open>
  The claim as the specification states it fails in two places. The first archive of a
  card, which changes it, a second archive, which changes nothing, and the archive of an
  identifier that is not in the registry are all answered with the same reply. And the flag
  under an identifier does go back to false: a message whose generated identifier is the
  one of an archived card replaces that card with one that is not archived.
\<close>


theorem archive_claim_counterexample:
  "map_sum id snd (on_button sample_lib (clock_at 739000 19 0 None) 7 ''archive:deadbeef''
       \<lparr>giveaways = [(''deadbeef'', sample_card)], jobs = []\<rparr>)
     = Inr (Some (SentToArchive ''deadbeef''))
   \<and> map_sum id snd (on_button sample_lib (clock_at 739000 19 0 None) 7 ''archive:deadbeef''
       \<lparr>giveaways = [(''deadbeef'', sample_card\<lparr>archived := True\<rparr>)], jobs = []\<rparr>)
     = Inr (Some (SentToArchive ''deadbeef''))
   \<and> map_sum id snd (on_button sample_lib (clock_at 739000 19 0 None) 7 ''archive:deadbeef'' no_cards)
     = Inr (Some (SentToArchive ''deadbeef''))
   \<and> map (\<lambda>p. (fst p, archived (snd p)))
       (giveaways (fst (handle_forward basic_ucd (clock_parse 739000) (clock_at 739000 19 0)
          ''deadbeef-0000-4111-8222-333344445555'' (plain_message ''free gift'')
          \<lparr>giveaways = [(''deadbeef'', sample_card\<lparr>archived := True\<rparr>)], jobs = []\<rparr>)))
     = [(''deadbeef'', False)]"
  by code_simp

section \<open>Actions on an unknown identifier\<close>

text \<open>
  Claim C8, as the code has it. An action on an identifier that is not in the registry
  leaves the registry as it is. The archive action (token \<open>archive:<id>\<close>, no colon in
  the identifier) does not raise and replies "sent to archive". The reminder action
  (token \<open>remind:<id>:<minutes>\<close>, no colon in either part) raises when \<open>int\<close> refuses
  the minutes, when the run date leaves the range of \<open>datetime\<close> or when the scheduler
  refuses the run date; otherwise it schedules a job, which sends nothing when it fires
  while the identifier is still unknown, and replies "reminder set". What a token gives,
  reply or exception, is the same whatever the registry holds: there is no "unknown id"
  reply.
\<close>

theorem unknown_id_action:
  "dict_get (giveaways st) gid = None \<and> CHR '':'' \<notin> set gid \<longrightarrow>
     on_button L now_local chat_id (''archive:'' @ gid) st = Inr (st, Some (SentToArchive gid))
     \<and> (\<forall>mins. CHR '':'' \<notin> set mins
           \<longrightarrow> on_button L now_local chat_id (''remind:'' @ gid @ '':'' @ mins) st
                 = (case to_int L mins of
                      None \<Rightarrow> Inl ValueError
                    | Some m \<Rightarrow>
                        (case add_minutes now_local m of
                           Inl e \<Rightarrow> Inl e
                         | Inr w \<Rightarrow>
                             (case add_job L w of
                                Some e \<Rightarrow> Inl e
                              | None \<Rightarrow>
                                  Inr (st\<lparr>jobs := jobs st
                                          @ [\<lparr>job_chat = chat_id, job_gid = gid, run_date = w\<rparr>]\<rparr>,
                                       Some (ReminderSet mins gid))))))
     \<and> (\<forall>w. snd (fire \<lparr>job_chat = chat_id, job_gid = gid, run_date = w\<rparr>
                  (st\<lparr>jobs := jobs st @ [\<lparr>job_chat = chat_id, job_gid = gid, run_date = w\<rparr>]\<rparr>))
              = None)
     \<and> (\<forall>data st2. map_sum id snd (on_button L now_local chat_id data st2)
                      = map_sum id snd (on_button L now_local chat_id data st))"
proof -
  have "snd (fire \<lparr>job_chat = chat_id, job_gid = gid, run_date = w\<rparr>
          (st\<lparr>jobs := jobs st @ [\<lparr>job_chat = chat_id, job_gid = gid, run_date = w\<rparr>]\<rparr>)) = None"
    if "dict_get (giveaways st) gid = None" for w
    using that by (simp add: fire_def job_run_def)
  then show ?thesis
    using on_button_archive [of gid L now_local chat_id st] archive_absent [of "giveaways st" gid]
      on_button_remind [of gid _ L now_local chat_id st]
      on_button_reply_any_state [of L now_local chat_id _ _ st]
    by simp
qed

theorem unknown_id_action_witness:
  "on_button sample_lib (clock_at 739000 19 0 None) 7 (''archive:'' @ ''deadbeef'') no_cards
     = Inr (no_cards, Some (SentToArchive ''deadbeef''))
   \<and> on_button sample_lib (clock_at 739000 19 0 None) 7 (''remind:'' @ ''deadbeef'' @ '':'' @ ''10'')
       no_cards
     = Inr (no_cards\<lparr>jobs := jobs no_cards
              @ [\<lparr>job_chat = 7, job_gid = ''deadbeef'', run_date = clock_at 739000 19 10 None\<rparr>]\<rparr>,
            Some (ReminderSet ''10'' ''deadbeef''))
   \<and> on_button sample_lib (clock_at 739000 19 0 None) 7 (''remind:'' @ ''deadbeef'' @ '':'' @ ''soon'')
       no_cards
     = Inl ValueError"
proof -
  have 1: "dict_get (giveaways no_cards) ''deadbeef'' = None \<and> CHR '':'' \<notin> set ''deadbeef''"
    by (simp add: no_cards_def dict_get_def)
  have 2: "CHR '':'' \<notin> set ''10''" "CHR '':'' \<notin> set ''soon''"
    by simp_all
  have 3: "to_int sample_lib ''10'' = Some 10" "to_int sample_lib ''soon'' = None"
    by code_simp+
  have 4: "add_minutes (clock_at 739000 19 0 None) 10 = Inr (clock_at 739000 19 10 None)"
    by code_simp
  have 5: "add_job sample_lib (clock_at 739000 19 10 None) = None"
    by code_simp
  note u = unknown_id_action [of no_cards "''deadbeef''" sample_lib "clock_at 739000 19 0 None" 7]
  have a: "on_button sample_lib (clock_at 739000 19 0 None) 7 (''archive:'' @ ''deadbeef'') no_cards
             = Inr (no_cards, Some (SentToArchive ''deadbeef''))"
    using u 1 by blast
  have r: "on_button sample_lib (clock_at 739000 19 0 None) 7 (''remind:'' @ ''deadbeef'' @ '':'' @ mins)
       no_cards
     = (case to_int sample_lib mins of
          None \<Rightarrow> Inl ValueError
        | Some m \<Rightarrow>
            (case add_minutes (clock_at 739000 19 0 None) m of
               Inl e \<Rightarrow> Inl e
             | Inr w \<Rightarrow>
                 (case add_job sample_lib w of
                    Some e \<Rightarrow> Inl e
                  | None \<Rightarrow>
                      Inr (no_cards\<lparr>jobs := jobs no_cards
                              @ [\<lparr>job_chat = 7, job_gid = ''deadbeef'', run_date = w\<rparr>]\<rparr>,
                           Some (ReminderSet mins ''deadbeef'')))))"
    if "CHR '':'' \<notin> set mins" for mins
    using u 1 that by blast
  show ?thesis
    using a r [OF 2(1)] r [OF 2(2)] by (simp only: 3 4 5 option.case sum.case simp_thms)
qed

text \<open>
  The claim as the specification states it fails: the replies to an archive and to a
  reminder request for an identifier that is not in the registry are those for a card
  that is, and a reminder request raises when its minutes are not a number or lead out of
  the calendar.
\<close>

theorem unknown_id_reply_counterexample:
  "map_sum id snd (on_button sample_lib (clock_at 739000 19 0 None) 7 ''archive:0badc0de'' no_cards)
     = map_sum id snd (on_button sample_lib (clock_at 739000 19 0 None) 7 ''archive:0badc0de''
         \<lparr>giveaways = [(''0badc0de'', sample_card)], jobs = []\<rparr>)
   \<and> map_sum id snd (on_button sample_lib (clock_at 739000 19 0 None) 7 ''archive:0badc0de'' no_cards)
     = Inr (Some (SentToArchive ''0badc0de''))
   \<and> map_sum id snd (on_button sample_lib (clock_at 739000 19 0 None) 7 ''remind:0badc0de:10'' no_cards)
     = map_sum id snd (on_button sample_lib (clock_at 739000 19 0 None) 7 ''remind:0badc0de:10''
         \<lparr>giveaways = [(''0badc0de'', sample_card)], jobs = []\<rparr>)
   \<and> map_sum id snd (on_button sample_lib (clock_at 739000 19 0 None) 7 ''remind:0badc0de:10'' no_cards)
     = Inr (Some (ReminderSet ''10'' ''0badc0de''))
   \<and> on_button sample_lib (clock_at 739000 19 0 None) 7 ''remind:0badc0de:soon'' no_cards
     = Inl ValueError
   \<and> on_button sample_lib (clock_at 739000 19 0 None) 7 ''remind:0badc0de:9999999999999'' no_cards
     = Inl OverflowError"
  by code_simp

section \<open>Listing the active cards\<close>

lemma list_cmd_lines:
  "shown_lines (list_cmd st) = map render_line (take 20 (active_cards (giveaways st)))"
  by (simp add: list_cmd_def shown_lines_def Let_def)

lemma three_cards_then_archive:
  assumes c: "fst (classify U (message_text m1))" "fst (classify U (message_text m2))"
      "fst (classify U (message_text m3))"
    and d: "distinct [take 8 u1, take 8 u2, take 8 u3]"
    and n: "CHR '':'' \<notin> set (take 8 u2)"
  shows "\<exists>s4 g1 g2 g3.
      on_button L t ch (''archive:'' @ take 8 u2)
        (fst (handle_forward U parse now u3 m3
           (fst (handle_forward U parse now u2 m2
              (fst (handle_forward U parse now u1 m1 no_cards))))))
        = Inr (s4, Some (SentToArchive (take 8 u2)))
      \<and> giveaways s4 = [(take 8 u1, g1), (take 8 u2, g2), (take 8 u3, g3)]
      \<and> text_str g1 = message_text m1 \<and> text_str g2 = message_text m2 \<and> text_str g3 = message_text m3
      \<and> shown_lines (list_cmd s4) = [render_line (take 8 u1, g1), render_line (take 8 u3, g3)]"
proof -
  let ?g = "\<lambda>m. \<lparr> from_chat = (case forward_from_chat m of None \<Rightarrow> None | Some c \<Rightarrow> title c),
                  text_str = message_text m,
                  links = snd (classify U (message_text m)),
                  deadline = extract_deadline U parse now (Some (message_text m)),
                  archived = False \<rparr>"
  let ?s3 = "fst (handle_forward U parse now u3 m3
           (fst (handle_forward U parse now u2 m2
              (fst (handle_forward U parse now u1 m1 no_cards)))))"
  let ?s4 = "?s3\<lparr>giveaways := archive (take 8 u2) (giveaways ?s3)\<rparr>"
  have i: "take 8 u1 \<noteq> take 8 u2" "take 8 u1 \<noteq> take 8 u3" "take 8 u2 \<noteq> take 8 u3"
    using d by auto
  have r: "giveaways ?s3 = [(take 8 u1, ?g m1), (take 8 u2, ?g m2), (take 8 u3, ?g m3)]"
    using i
    by (simp add: handle_forward_candidate [OF c(1)] handle_forward_candidate [OF c(2)]
          handle_forward_candidate [OF c(3)] no_cards_def)
  have a: "giveaways ?s4 = [(take 8 u1, ?g m1), (take 8 u2, (?g m2)\<lparr>archived := True\<rparr>), (take 8 u3, ?g m3)]"
    using i by (simp add: r archive_def dict_get_def)
  have l: "shown_lines (list_cmd ?s4) = [render_line (take 8 u1, ?g m1), render_line (take 8 u3, ?g m3)]"
    unfolding list_cmd_lines a by (simp add: active_cards_def)
  have b: "on_button L t ch (''archive:'' @ take 8 u2) ?s3 = Inr (?s4, Some (SentToArchive (take 8 u2)))"
    by (rule on_button_archive [OF n])
  have "on_button L t ch (''archive:'' @ take 8 u2) ?s3 = Inr (?s4, Some (SentToArchive (take 8 u2)))
      \<and> giveaways ?s4 = [(take 8 u1, ?g m1), (take 8 u2, (?g m2)\<lparr>archived := True\<rparr>), (take 8 u3, ?g m3)]
      \<and> text_str (?g m1) = message_text m1 \<and> text_str ((?g m2)\<lparr>archived := True\<rparr>) = message_text m2
      \<and> text_str (?g m3) = message_text m3
      \<and> shown_lines (list_cmd ?s4) = [render_line (take 8 u1, ?g m1), render_line (take 8 u3, ?g m3)]"
    using a b l by simp
  then show ?thesis
    by blast
qed

lemma dict_set_key_order:
  "map fst (dict_set k v d) = (if k \<in> set (map fst d) then map fst d else map fst d @ [k])"
  using dict_set_new [of k d v] dict_set_keys [of k d v] by simp

lemma handle_forward_key_order:
  "map fst (giveaways (fst (handle_forward U parse now uuid msg st))) =
     (if fst (classify U (message_text msg)) \<and> take 8 uuid \<notin> set (map fst (giveaways st))
      then map fst (giveaways st) @ [take 8 uuid]
      else map fst (giveaways st))"
  by (cases "fst (classify U (message_text msg))")
     (simp_all add: handle_forward_candidate handle_forward_rejected dict_set_key_order)

lemma creates_key_order:
  "map fst (giveaways (foldl (\<lambda>s c. fst (handle_forward U parse now (fst c) (snd c) s)) st cs)) =
     foldl (\<lambda>ks k. if k \<in> set ks then ks else ks @ [k]) (map fst (giveaways st))
       (map (\<lambda>c. take 8 (fst c)) (filter (\<lambda>c. fst (classify U (message_text (snd c)))) cs))"
proof (induction cs arbitrary: st)
  case Nil
  show ?case by simp
next
  case (Cons c cs)
  show ?case
    by (simp add: Cons.IH handle_forward_key_order)
qed

text \<open>
  Claim C9, as the code has it. The list shows the cards that are not archived, at most
  twenty of them (the limit is fixed in the code): the first twenty in the order of the
  registry. The registry keeps the identifiers in the order in which each was first
  stored; a card stored under an identifier that is already there takes the place of the
  card it replaces, and no button action changes the order. When the three generated
  identifiers differ from each other, after three cards are created and the second is
  archived the list shows the first and the third, in this order.
\<close>

theorem list_shows_active_cards:
  "shown_lines (list_cmd st) = map render_line (take 20 (active_cards (giveaways st)))
   \<and> map line_gid (shown_lines (list_cmd st)) = take 20 (map fst (active_cards (giveaways st)))
   \<and> length (shown_lines (list_cmd st)) \<le> 20
   \<and> subseq (active_cards (giveaways st)) (giveaways st)
   \<and> set (active_cards (giveaways st)) = {p \<in> set (giveaways st). \<not> archived (snd p)}
   \<and> (list_cmd st = NoActiveCards \<longleftrightarrow> active_cards (giveaways st) = [])
   \<and> (\<forall>U parse now cs.
        map fst (giveaways (foldl (\<lambda>s c. fst (handle_forward U parse now (fst c) (snd c) s)) st cs))
          = foldl (\<lambda>ks k. if k \<in> set ks then ks else ks @ [k]) (map fst (giveaways st))
              (map (\<lambda>c. take 8 (fst c))
                 (filter (\<lambda>c. fst (classify U (message_text (snd c)))) cs)))
   \<and> (\<forall>L t ch data st' r.
        on_button L t ch data st = Inr (st', r) \<longrightarrow> map fst (giveaways st') = map fst (giveaways st))
   \<and> (\<forall>U parse now u1 m1 u2 m2 u3 m3 L t ch.
        fst (classify U (message_text m1)) \<and> fst (classify U (message_text m2))
        \<and> fst (classify U (message_text m3))
        \<and> distinct [take 8 u1, take 8 u2, take 8 u3] \<and> CHR '':'' \<notin> set (take 8 u2)
        \<longrightarrow> (\<exists>s4 g1 g2 g3.
              on_button L t ch (''archive:'' @ take 8 u2)
                (fst (handle_forward U parse now u3 m3
                   (fst (handle_forward U parse now u2 m2
                      (fst (handle_forward U parse now u1 m1 no_cards))))))
                = Inr (s4, Some (SentToArchive (take 8 u2)))
              \<and> giveaways s4 = [(take 8 u1, g1), (take 8 u2, g2), (take 8 u3, g3)]
              \<and> text_str g1 = message_text m1 \<and> text_str g2 = message_text m2
              \<and> text_str g3 = message_text m3
              \<and> shown_lines (list_cmd s4) = [render_line (take 8 u1, g1), render_line (take 8 u3, g3)]))"
proof -
  have 1: "map line_gid (shown_lines (list_cmd st)) = take 20 (map fst (active_cards (giveaways st)))"
    by (simp add: list_cmd_lines take_map render_line_def comp_def)
  have 2: "length (shown_lines (list_cmd st)) \<le> 20"
    by (simp add: list_cmd_lines)
  have 3: "subseq (active_cards (giveaways st)) (giveaways st)"
    by (simp add: active_cards_def)
  have 4: "set (active_cards (giveaways st)) = {p \<in> set (giveaways st). \<not> archived (snd p)}"
    by (auto simp: active_cards_def)
  have 5: "list_cmd st = NoActiveCards \<longleftrightarrow> active_cards (giveaways st) = []"
    by (simp add: list_cmd_def Let_def)
  have 6: "\<forall>U parse now cs.
        map fst (giveaways (foldl (\<lambda>s c. fst (handle_forward U parse now (fst c) (snd c) s)) st cs))
          = foldl (\<lambda>ks k. if k \<in> set ks then ks else ks @ [k]) (map fst (giveaways st))
              (map (\<lambda>c. take 8 (fst c))
                 (filter (\<lambda>c. fst (classify U (message_text (snd c)))) cs))"
    using creates_key_order by blast
  have 7: "\<forall>L t ch data st' r.
        on_button L t ch data st = Inr (st', r) \<longrightarrow> map fst (giveaways st') = map fst (giveaways st)"
    using on_button_keys by blast
  have 8: "\<forall>U parse now u1 m1 u2 m2 u3 m3 L t ch.
        fst (classify U (message_text m1)) \<and> fst (classify U (message_text m2))
        \<and> fst (classify U (message_text m3))
        \<and> distinct [take 8 u1, take 8 u2, take 8 u3] \<and> CHR '':'' \<notin> set (take 8 u2)
        \<longrightarrow> (\<exists>s4 g1 g2 g3.
              on_button L t ch (''archive:'' @ take 8 u2)
                (fst (handle_forward U parse now u3 m3
                   (fst (handle_forward U parse now u2 m2
                      (fst (handle_forward U parse now u1 m1 no_cards))))))
                = Inr (s4, Some (SentToArchive (take 8 u2)))
              \<and> giveaways s4 = [(take 8 u1, g1), (take 8 u2, g2), (take 8 u3, g3)]
              \<and> text_str g1 = message_text m1 \<and> text_str g2 = message_text m2
              \<and> text_str g3 = message_text m3
              \<and> shown_lines (list_cmd s4) = [render_line (take 8 u1, g1), render_line (take 8 u3, g3)])"
    using three_cards_then_archive by blast
  show ?thesis
    using list_cmd_lines [of st] 1 2 3 4 5 6 7 8
    by - (intro conjI; assumption)
qed

theorem list_shows_active_cards_witness:
  "map line_gid (shown_lines (list_cmd
      \<lparr>giveaways = [(''3f2a9c1e'', sample_card), (''0badc0de'', sample_card\<lparr>archived := True\<rparr>),
                    (''deadbeef'', sample_card)], jobs = []\<rparr>))
     = [''3f2a9c1e'', ''deadbeef'']
   \<and> (case on_button sample_lib (clock_at 739000 19 0 None) 7 ''archive:0badc0de''
            (fst (handle_forward basic_ucd (clock_parse 739000) (clock_at 739000 19 0)
               ''deadbeef-0000-4111-8222-333344445555'' (plain_message ''stars'')
               (fst (handle_forward basic_ucd (clock_parse 739000) (clock_at 739000 19 0)
                  ''0badc0de-0000-4111-8222-333344445555'' (plain_message ''free gift'')
                  (fst (handle_forward basic_ucd (clock_parse 739000) (clock_at 739000 19 0)
                     ''3f2a9c1e-7b4d-4e8a-9c0f-5d6e7f8a9b0c'' (plain_message ''win ton'')
                     no_cards)))))) of
         Inl e \<Rightarrow> False
       | Inr (s4, r) \<Rightarrow> map line_gid (shown_lines (list_cmd s4)) = [''3f2a9c1e'', ''deadbeef''])"
proof -
  let ?st = "\<lparr>giveaways = [(''3f2a9c1e'', sample_card), (''0badc0de'', sample_card\<lparr>archived := True\<rparr>),
                    (''deadbeef'', sample_card)], jobs = []\<rparr>"
  have 0: "take 20 (map fst (active_cards (giveaways ?st))) = [''3f2a9c1e'', ''deadbeef'']"
    by (simp add: active_cards_def sample_card_def)
  have "map line_gid (shown_lines (list_cmd ?st)) = take 20 (map fst (active_cards (giveaways ?st)))"
    using list_shows_active_cards [of ?st] by (elim conjE)
  then have 1: "map line_gid (shown_lines (list_cmd ?st)) = [''3f2a9c1e'', ''deadbeef'']"
    using 0 by (simp only:)
  have 2: "(case on_button sample_lib (clock_at 739000 19 0 None) 7 ''archive:0badc0de''
            (fst (handle_forward basic_ucd (clock_parse 739000) (clock_at 739000 19 0)
               ''deadbeef-0000-4111-8222-333344445555'' (plain_message ''stars'')
               (fst (handle_forward basic_ucd (clock_parse 739000) (clock_at 739000 19 0)
                  ''0badc0de-0000-4111-8222-333344445555'' (plain_message ''free gift'')
                  (fst (handle_forward basic_ucd (clock_parse 739000) (clock_at 739000 19 0)
                     ''3f2a9c1e-7b4d-4e8a-9c0f-5d6e7f8a9b0c'' (plain_message ''win ton'')
                     no_cards)))))) of
         Inl e \<Rightarrow> False
       | Inr (s4, r) \<Rightarrow> map line_gid (shown_lines (list_cmd s4)) = [''3f2a9c1e'', ''deadbeef''])"
    by code_simp
  show ?thesis
    using 1 2 by (rule conjI)
qed

text \<open>
  The claim as the specification states it fails when generated identifiers collide.
  Three messages are stored, from chats "first", "second" and "third", and the third gets
  the identifier of the first. The list then shows the third card before the second,
  which is not the order of creation; and after the second is archived it shows one card,
  the third, not the first and the third.
\<close>

theorem list_order_counterexample:
  "map line_label (shown_lines (list_cmd
      (fst (handle_forward basic_ucd (clock_parse 739000) (clock_at 739000 19 0)
         ''3f2a9c1e-0000-4111-8222-333344445555'' (forwarded_message ''stars'' ''third'')
         (fst (handle_forward basic_ucd (clock_parse 739000) (clock_at 739000 19 0)
            ''0badc0de-0000-4111-8222-333344445555'' (forwarded_message ''free gift'' ''second'')
            (fst (handle_forward basic_ucd (clock_parse 739000) (clock_at 739000 19 0)
               ''3f2a9c1e-7b4d-4e8a-9c0f-5d6e7f8a9b0c'' (forwarded_message ''win ton'' ''first'')
               no_cards))))))))
     = [asc ''third'', asc ''second'']
   \<and> (case on_button sample_lib (clock_at 739000 19 0 None) 7 ''archive:0badc0de''
            (fst (handle_forward basic_ucd (clock_parse 739000) (clock_at 739000 19 0)
               ''3f2a9c1e-0000-4111-8222-333344445555'' (forwarded_message ''stars'' ''third'')
               (fst (handle_forward basic_ucd (clock_parse 739000) (clock_at 739000 19 0)
                  ''0badc0de-0000-4111-8222-333344445555'' (forwarded_message ''free gift'' ''second'')
                  (fst (handle_forward basic_ucd (clock_parse 739000) (clock_at 739000 19 0)
                     ''3f2a9c1e-7b4d-4e8a-9c0f-5d6e7f8a9b0c'' (forwarded_message ''win ton'' ''first'')
                     no_cards)))))) of
         Inl e \<Rightarrow> False
       | Inr (s4, r) \<Rightarrow> map line_label (shown_lines (list_cmd s4)) = [asc ''third''])"
  by code_simp

end
